theory Spec2Isabelle
  imports Main "HOL-Library.Sublist"
begin

section \<open>JavaScript strings and numbers\<close>

text \<open>
  Strings are character lists. The sources only slice, join, search and replace, so a
  character of the model stands for one UTF-16 code unit of the program; the literals the
  code compares against are ASCII.
\<close>

definition dquote :: string where
  "dquote = [CHR 0x22]"

definition squote :: string where
  "squote = [CHR 0x27]"

definition backtick :: string where
  "backtick = [CHR 0x60]"

definition newline :: string where
  "newline = [CHR 0x0A]"

text \<open>\<^verbatim>\<open>Array.prototype.join\<close>: the elements separated by \<open>sep\<close>, the empty array gives the empty string.\<close>

fun join :: "string \<Rightarrow> string list \<Rightarrow> string" where
  "join sep [] = []"
| "join sep [x] = x"
| "join sep (x # y # ys) = x @ sep @ join sep (y # ys)"

text \<open>\<^verbatim>\<open>String.prototype.includes\<close>: substring test.\<close>

fun str_includes :: "string \<Rightarrow> string \<Rightarrow> bool" where
  "str_includes [] sub = (sub = [])"
| "str_includes (c # cs) sub = (prefix sub (c # cs) \<or> str_includes cs sub)"

text \<open>
  \<^verbatim>\<open>String.prototype.replace\<close> with a string pattern: only the first occurrence is replaced.
  (The replacement strings of the sources contain no \<^verbatim>\<open>$\<close> pattern.)
\<close>

fun str_replace :: "string \<Rightarrow> string \<Rightarrow> string \<Rightarrow> string" where
  "str_replace [] pat rep = (if pat = [] then rep else [])"
| "str_replace (c # cs) pat rep =
     (if prefix pat (c # cs) then rep @ drop (length pat) (c # cs)
      else c # str_replace cs pat rep)"

text \<open>\<^verbatim>\<open>String.prototype.toLowerCase\<close> on the ASCII range: \<open>A..Z\<close> become \<open>a..z\<close>.\<close>

definition isUpper :: "char \<Rightarrow> bool" where
  "isUpper c = (65 \<le> (of_char c :: nat) \<and> (of_char c :: nat) \<le> 90)"

definition lowerChar :: "char \<Rightarrow> char" where
  "lowerChar c = (if isUpper c then char_of ((of_char c :: nat) + 32) else c)"

definition toLowerCase :: "string \<Rightarrow> string" where
  "toLowerCase s = map lowerChar s"

text \<open>The regular expression class \<^verbatim>\<open>\d\<close>: the ten ASCII digits.\<close>

definition isDigit :: "char \<Rightarrow> bool" where
  "isDigit c = (48 \<le> (of_char c :: nat) \<and> (of_char c :: nat) \<le> 57)"

definition digitChar :: "nat \<Rightarrow> char" where
  "digitChar d = char_of (48 + d)"

text \<open>
  A non-negative integer in a template literal: its decimal digits. (Pull-request numbers
  are far below \<open>10\<^sup>2\<^sup>1\<close>, where JavaScript switches to exponent notation.)
\<close>

function numberToString :: "nat \<Rightarrow> string" where
  "numberToString n =
     (if n < 10 then [digitChar n] else numberToString (n div 10) @ [digitChar (n mod 10)])"
  by pat_completeness auto
termination
  by (relation "measure id") auto

text \<open>
  \<^verbatim>\<open>parseInt(ds, 10)\<close> on a run of decimal digits. (Exact below \<open>2\<^sup>5\<^sup>3\<close>; the
  model keeps the mathematical value.)
\<close>

definition digitVal :: "char \<Rightarrow> nat" where
  "digitVal c = (of_char c :: nat) - 48"

definition parseInt :: "string \<Rightarrow> nat" where
  "parseInt ds = foldl (\<lambda>acc c. 10 * acc + digitVal c) 0 ds"

section \<open>Commits, references and the backport branch name\<close>

text \<open>
  \<^verbatim>\<open>interface Commit { sha: string; message: string; pullRequest?: number }\<close>
\<close>

record Commit =
  sha :: string
  message :: string
  pullRequest :: "nat option"

text \<open>
  \<^verbatim>\<open>if (commit.pullRequest)\<close> is a truthiness test: \<^verbatim>\<open>undefined\<close> and the number
  \<open>0\<close> both take the commit branch.
\<close>

definition truthyNumber :: "nat option \<Rightarrow> bool" where
  "truthyNumber v = (case v of None \<Rightarrow> False | Some n \<Rightarrow> n \<noteq> 0)"

definition getReference :: "'a Commit_scheme \<Rightarrow> bool \<Rightarrow> string" where
  "getReference commit short =
     (if truthyNumber (pullRequest commit) then
        (if short then ''pr-'' @ numberToString (the (pullRequest commit))
         else ''#'' @ numberToString (the (pullRequest commit)))
      else
        (let shortCommit = take 7 (sha commit)
         in if short then ''commit-'' @ shortCommit else shortCommit))"

definition getReferenceLong :: "'a Commit_scheme \<Rightarrow> string" where
  "getReferenceLong commit = getReference commit False"

definition getReferenceShort :: "'a Commit_scheme \<Rightarrow> string" where
  "getReferenceShort commit = getReference commit True"

definition getBackportBranchName :: "string \<Rightarrow> 'a Commit_scheme list \<Rightarrow> string" where
  "getBackportBranchName version commits =
     (let refValues = take 200 (join ''_'' (map getReferenceShort commits))
      in ''backport/'' @ version @ ''/'' @ refValues)"

text \<open>
  The short reference as the specification words it: \<^verbatim>\<open>pr-<number>\<close> when a pull request
  is associated, otherwise \<^verbatim>\<open>commit-<first 7 characters of the revision id>\<close>.
\<close>

definition shortRefSpec :: "'a Commit_scheme \<Rightarrow> string" where
  "shortRefSpec c =
     (case pullRequest c of
        Some n \<Rightarrow> ''pr-'' @ numberToString n
      | None \<Rightarrow> ''commit-'' @ take 7 (sha c))"

section \<open>The pull-request payload\<close>

text \<open>\<^verbatim>\<open>interface GithubPullRequestPayload { title; head; base; body? }\<close>\<close>

record GithubPullRequestPayload =
  title :: string
  body :: string
  head :: string
  base :: string

definition commitRefLine :: "'a Commit_scheme \<Rightarrow> string" where
  "commitRefLine commit =
     (let ref = getReferenceLong commit
      in '' - '' @ str_replace (message commit) (''('' @ ref @ '')'') '''' @ '' ('' @ ref @ '')'')"

definition getPullRequestPayload ::
  "string \<Rightarrow> 'a Commit_scheme list \<Rightarrow> string \<Rightarrow> GithubPullRequestPayload" where
  "getPullRequestPayload version commits username =
     (let backportBranchName = getBackportBranchName version commits;
          commitRefs = join newline (map commitRefLine commits);
          commitMessages = take 200 (join '' | '' (map message commits))
      in \<lparr> title = ''['' @ version @ ''] '' @ commitMessages,
           body = ''Backports the following commits to '' @ version @ '':'' @ newline @ commitRefs,
           head = username @ '':'' @ backportBranchName,
           base = version \<rparr>)"

section \<open>Errors\<close>

text \<open>
  A rejected promise or a thrown exception carries an error object. The sources read its
  \<^verbatim>\<open>code\<close>, \<^verbatim>\<open>cmd\<close> and \<^verbatim>\<open>stderr\<close> properties, each of which may be
  missing, and distinguish \<^verbatim>\<open>HandledError\<close> (a message for the user) from everything
  else. \<^verbatim>\<open>TypeError\<close> is what reading a property of \<^verbatim>\<open>undefined\<close> throws.
\<close>

datatype errcode = CodeNum nat | CodeStr string

datatype error =
    HandledError string
  | Error string "errcode option" "string option" "string option"
  | TypeError string

fun err_message :: "error \<Rightarrow> string" where
  "err_message (HandledError m) = m"
| "err_message (Error m c cmd se) = m"
| "err_message (TypeError m) = m"

fun err_code :: "error \<Rightarrow> errcode option" where
  "err_code (Error m c cmd se) = c"
| "err_code _ = None"

fun err_cmd :: "error \<Rightarrow> string option" where
  "err_cmd (Error m c cmd se) = cmd"
| "err_cmd _ = None"

fun err_stderr :: "error \<Rightarrow> string option" where
  "err_stderr (Error m c cmd se) = se"
| "err_stderr _ = None"

fun isHandledError :: "error \<Rightarrow> bool" where
  "isHandledError (HandledError m) = True"
| "isHandledError _ = False"

section \<open>Options\<close>

text \<open>
  The fields of \<^verbatim>\<open>BackportOptions\<close> that the sources read. Its declaration
  (\<^verbatim>\<open>options/options.ts\<close>) is not among the sources; \<open>path\<close> is optional there and is
  tested for truthiness, \<open>author\<close> is only read when \<open>all\<close> is false.
\<close>

record BackportOptions =
  accessToken :: string
  gitHostname :: string
  repoOwner :: string
  repoName :: string
  username :: string
  fork :: bool
  sourceBranch :: string
  maxNumber :: nat
  path :: "string option"
  all_opt :: bool
  author :: string
  branchLabelMapping :: "(string \<times> string) list"

definition truthyString :: "string option \<Rightarrow> bool" where
  "truthyString v = (case v of None \<Rightarrow> False | Some s \<Rightarrow> s \<noteq> [])"

section \<open>Resolving commits: \<^verbatim>\<open>fetchCommitsByAuthor\<close>\<close>

text \<open>
  The first associated pull request of a history entry. Only the fields read by
  \<^verbatim>\<open>fetchCommitsByAuthor\<close> are named; labels and timeline stay in the record extension.
  \<open>mergeCommit_oid\<close> is \<^verbatim>\<open>mergeCommit?.oid\<close>.
\<close>

record PullRequestNode =
  number :: nat
  repository_name :: string
  repository_owner_login :: string
  mergeCommit_oid :: "string option"

record 'a HistoryNode =
  oid :: string
  node_message :: string
  associatedPullRequests :: "'a PullRequestNode_scheme list"

text \<open>\<^verbatim>\<open>res.repository.ref\<close> is \<^verbatim>\<open>null\<close> or holds the history edges.\<close>

record 'a DataResponse =
  repository_ref :: "'a HistoryNode list option"

record 'tp CommitSelected =
  sourceBranch_sel :: string
  targetBranchesFromLabels :: "string list"
  sha_sel :: string
  formattedMessage :: string
  originalMessage :: string
  pullNumber :: "nat option"
  existingTargetPullRequests :: "'tp list"

text \<open>
  Functions imported by \<^verbatim>\<open>fetchCommitsByAuthor\<close> whose sources are not available; they are
  parameters of the model.
\<close>

record ('a, 'tp) helpers =
  getFormattedCommitMessage :: "string \<Rightarrow> nat option \<Rightarrow> string \<Rightarrow> string"
  getExistingTargetPullRequests :: "string \<Rightarrow> 'a PullRequestNode_scheme \<Rightarrow> 'tp list"
  getPullRequestLabels :: "'a PullRequestNode_scheme \<Rightarrow> string list"
  getTargetBranchesFromLabels ::
    "'tp list \<Rightarrow> (string \<times> string) list \<Rightarrow> string list \<Rightarrow> string list"

text \<open>
  The regular expression \<^verbatim>\<open>/\(#(\d+)\)/\<close> tried at the start of a string: \<^verbatim>\<open>(#\<close>,
  a non-empty run of digits, \<^verbatim>\<open>)\<close>. The digit run is greedy, and giving digits back can
  never help because the next character must be \<^verbatim>\<open>)\<close>.
\<close>

definition matchPullNumberHere :: "string \<Rightarrow> string option" where
  "matchPullNumberHere s =
     (if prefix ''(#'' s then
        (let ds = takeWhile isDigit (drop 2 s); rest = dropWhile isDigit (drop 2 s)
         in if ds \<noteq> [] \<and> prefix '')'' rest then Some ds else None)
      else None)"

text \<open>\<^verbatim>\<open>String.prototype.match\<close> without the \<^verbatim>\<open>g\<close> flag: the leftmost match.\<close>

fun matchPullNumber :: "string \<Rightarrow> string option" where
  "matchPullNumber [] = None"
| "matchPullNumber (c # cs) =
     (case matchPullNumberHere (c # cs) of
        Some ds \<Rightarrow> Some ds
      | None \<Rightarrow> matchPullNumber cs)"

definition getPullNumberFromMessage :: "string \<Rightarrow> nat option" where
  "getPullNumberFromMessage firstMessageLine =
     (case matchPullNumber firstMessageLine of
        Some ds \<Rightarrow> Some (parseInt ds)
      | None \<Rightarrow> None)"

text \<open>
  An occurrence of the pattern in a message: \<open>pre\<close>, then \<^verbatim>\<open>(#\<close>, the digits \<open>ds\<close>,
  \<^verbatim>\<open>)\<close>, then \<open>post\<close>.
\<close>

definition pullNumberOccurrence :: "string \<Rightarrow> string \<Rightarrow> string \<Rightarrow> string \<Rightarrow> bool" where
  "pullNumberOccurrence msg pre ds post =
     (msg = pre @ ''(#'' @ ds @ '')'' @ post \<and> ds \<noteq> [] \<and> list_all isDigit ds)"

text \<open>
  The number as the specification words it: parsed from the trailing \<^verbatim>\<open>(#NNN)\<close> of the
  message, when the message ends with one.
\<close>

definition trailingPullNumber :: "string \<Rightarrow> nat option" where
  "trailingPullNumber msg =
     (case rev msg of
        [] \<Rightarrow> None
      | c # r \<Rightarrow>
          (let ds = rev (takeWhile isDigit r)
           in if c = CHR '')'' \<and> ds \<noteq> [] \<and> prefix ''#('' (dropWhile isDigit r)
              then Some (parseInt ds) else None))"

definition isSourcePullRequest ::
  "'a PullRequestNode_scheme option \<Rightarrow> 'b BackportOptions_scheme \<Rightarrow> string \<Rightarrow> bool" where
  "isSourcePullRequest pullRequestNode options sha' =
     (case pullRequestNode of
        None \<Rightarrow> False
      | Some node \<Rightarrow>
          repository_name node = repoName options \<and>
          repository_owner_login node = repoOwner options \<and>
          mergeCommit_oid node = Some sha')"

text \<open>\<^verbatim>\<open>edges[0]?.node\<close>\<close>

definition firstNode :: "'a list \<Rightarrow> 'a option" where
  "firstNode edges = (case edges of [] \<Rightarrow> None | e # _ \<Rightarrow> Some e)"

text \<open>The callback mapped over the history edges.\<close>

definition commitFromEdge ::
  "('a, 'tp) helpers \<Rightarrow> 'b BackportOptions_scheme \<Rightarrow> 'a HistoryNode \<Rightarrow> 'tp CommitSelected" where
  "commitFromEdge h options node =
     (let commitMessage = node_message node;
          sha' = oid node;
          pullRequestNode = firstNode (associatedPullRequests node)
      in if \<not> isSourcePullRequest pullRequestNode options sha' then
           (let pullNumber' = getPullNumberFromMessage commitMessage;
                formattedMessage' = getFormattedCommitMessage h commitMessage pullNumber' sha'
            in \<lparr> sourceBranch_sel = sourceBranch options,
                 targetBranchesFromLabels = [],
                 sha_sel = sha',
                 formattedMessage = formattedMessage',
                 originalMessage = commitMessage,
                 pullNumber = pullNumber',
                 existingTargetPullRequests = [] \<rparr>)
         else
           (let prNode = the pullRequestNode;
                pullNumber' = Some (number prNode);
                formattedMessage' = getFormattedCommitMessage h commitMessage pullNumber' sha';
                existing = getExistingTargetPullRequests h commitMessage prNode;
                targets = getTargetBranchesFromLabels h existing (branchLabelMapping options)
                            (getPullRequestLabels h prNode)
            in \<lparr> sourceBranch_sel = sourceBranch options,
                 targetBranchesFromLabels = targets,
                 sha_sel = sha',
                 formattedMessage = formattedMessage',
                 originalMessage = commitMessage,
                 pullNumber = pullNumber',
                 existingTargetPullRequests = existing \<rparr>))"

text \<open>The variables of the GraphQL request; \<^verbatim>\<open>historyPath: path || null\<close>.\<close>

record QueryVariables =
  q_repoOwner :: string
  q_repoName :: string
  q_sourceBranch :: string
  q_maxNumber :: nat
  q_authorId :: "string option"
  q_historyPath :: "string option"

definition queryVariables :: "'b BackportOptions_scheme \<Rightarrow> string option \<Rightarrow> QueryVariables" where
  "queryVariables options authorId =
     \<lparr> q_repoOwner = repoOwner options,
       q_repoName = repoName options,
       q_sourceBranch = sourceBranch options,
       q_maxNumber = maxNumber options,
       q_authorId = authorId,
       q_historyPath = (if truthyString (path options) then path options else None) \<rparr>"

text \<open>The clause of the error message that names the path filter, when one is set.\<close>

definition pathClause :: "string option \<Rightarrow> string" where
  "pathClause p =
     (if truthyString p then '' touching files in path: '' @ dquote @ the p @ dquote else [])"

definition noCommitsErrorText :: "'b BackportOptions_scheme \<Rightarrow> string" where
  "noCommitsErrorText options =
     (let pathText =
            (if truthyString (path options)
             then '' touching files in path: '' @ dquote @ the (path options) @ dquote
             else [])
      in if all_opt options
         then ''There are no commits in this repository'' @ pathText
         else ''There are no commits by '' @ dquote @ author options @ dquote @
              '' in this repository'' @ pathText @ ''. Try with '' @ backtick @ ''--all'' @
              backtick @ '' for commits by all users or '' @ backtick @
              ''--author=<username>'' @ backtick @ '' for commits from a specific user'')"

text \<open>
  The two awaited network calls are parameters: \<open>fetchAuthorId\<close> and \<open>apiRequestV4\<close>
  return an error or a value. (The spinner is not modelled.)
\<close>

definition fetchCommitsByAuthor ::
  "('a, 'tp) helpers \<Rightarrow> ('b BackportOptions_scheme \<Rightarrow> error + string option) \<Rightarrow>
   (QueryVariables \<Rightarrow> error + 'a DataResponse) \<Rightarrow> 'b BackportOptions_scheme \<Rightarrow>
   error + 'tp CommitSelected list" where
  "fetchCommitsByAuthor h fetchAuthorId apiRequestV4 options =
     (case fetchAuthorId options of
        Inl e \<Rightarrow> Inl e
      | Inr authorId \<Rightarrow>
          (case apiRequestV4 (queryVariables options authorId) of
             Inl e \<Rightarrow> Inl e
           | Inr res \<Rightarrow>
               (case repository_ref res of
                  None \<Rightarrow>
                    Inl (HandledError
                      (''The upstream branch '' @ dquote @ sourceBranch options @ dquote @
                       '' does not exist. Try specifying a different branch with '' @ dquote @
                       ''--source-branch <your-branch>'' @ dquote))
                | Some edges \<Rightarrow>
                    (let commits = map (commitFromEdge h options) edges
                     in if commits = [] then Inl (HandledError (noCommitsErrorText options))
                        else Inr commits))))"

section \<open>The git service\<close>

text \<open>
  An \<^verbatim>\<open>async\<close> function of the TypeScript sources is a state transformer that returns
  an error (the rejection) or a value, together with the new state of the world.
\<close>

type_synonym ('a, 'w) action = "'w \<Rightarrow> (error + 'a) \<times> 'w"

definition returnA :: "'a \<Rightarrow> ('a, 'w) action" where
  "returnA x w = (Inr x, w)"

definition throwA :: "error \<Rightarrow> ('a, 'w) action" where
  "throwA e w = (Inl e, w)"

definition bindA :: "('a, 'w) action \<Rightarrow> ('a \<Rightarrow> ('b, 'w) action) \<Rightarrow> ('b, 'w) action" where
  "bindA m f w = (case m w of (Inl e, w') \<Rightarrow> (Inl e, w') | (Inr x, w') \<Rightarrow> f x w')"

definition catchA :: "('a, 'w) action \<Rightarrow> (error \<Rightarrow> ('a, 'w) action) \<Rightarrow> ('a, 'w) action" where
  "catchA m handler w = (case m w of (Inl e, w') \<Rightarrow> handler e w' | (Inr x, w') \<Rightarrow> (Inr x, w'))"

text \<open>
  The world of the git service: the file system (which paths exist, and as what) and the
  shell commands run so far, each with its working directory.
\<close>

datatype fsnode = Directory | RegularFile

record git_world =
  fs :: "string \<Rightarrow> fsnode option"
  execLog :: "(string \<times> string) list"

record ExecOutput =
  stdout :: string
  stderr :: string

text \<open>
  What the outside decides: the two path functions of \<^verbatim>\<open>services/env\<close> (not among the
  sources), whether \<^verbatim>\<open>stat\<close>, \<^verbatim>\<open>makeDir\<close> and \<^verbatim>\<open>del\<close> fail on a path, what a
  shell command answers (given the commands run before it), and whether a failed
  \<^verbatim>\<open>git clone\<close> leaves the repository folder behind.
\<close>

record 'b git_env =
  getRepoPath :: "'b BackportOptions_scheme \<Rightarrow> string"
  getRepoOwnerPath :: "'b BackportOptions_scheme \<Rightarrow> string"
  statError :: "string \<Rightarrow> error option"
  makeDirError :: "string \<Rightarrow> error option"
  delError :: "string \<Rightarrow> error option"
  execResult :: "(string \<times> string) list \<Rightarrow> string \<Rightarrow> string \<Rightarrow> error + ExecOutput"
  cloneLeavesFolder :: bool

definition enoent :: error where
  "enoent = Error ''ENOENT: no such file or directory'' (Some (CodeStr ''ENOENT'')) None None"

definition stat :: "'b git_env \<Rightarrow> string \<Rightarrow> (fsnode, git_world) action" where
  "stat env p w =
     (case statError env p of
        Some e \<Rightarrow> (Inl e, w)
      | None \<Rightarrow> (case fs w p of None \<Rightarrow> (Inl enoent, w) | Some n \<Rightarrow> (Inr n, w)))"

definition makeDir :: "'b git_env \<Rightarrow> string \<Rightarrow> (unit, git_world) action" where
  "makeDir env p w =
     (case makeDirError env p of
        Some e \<Rightarrow> (Inl e, w)
      | None \<Rightarrow> (Inr (), w\<lparr>fs := (fs w)(p \<mapsto> Directory)\<rparr>))"

text \<open>\<^verbatim>\<open>del(path)\<close> removes the path and everything below it.\<close>

definition del :: "'b git_env \<Rightarrow> string \<Rightarrow> (unit, git_world) action" where
  "del env p w =
     (case delError env p of
        Some e \<Rightarrow> (Inl e, w)
      | None \<Rightarrow>
          (Inr (), w\<lparr>fs := (\<lambda>q. if q = p \<or> prefix (p @ ''/'') q then None else fs w q)\<rparr>))"

definition exec :: "'b git_env \<Rightarrow> string \<Rightarrow> string \<Rightarrow> (ExecOutput, git_world) action" where
  "exec env cmd cwd w = (execResult env (execLog w) cmd cwd, w\<lparr>execLog := execLog w @ [(cmd, cwd)]\<rparr>)"

definition folderExists :: "'b git_env \<Rightarrow> string \<Rightarrow> (bool, git_world) action" where
  "folderExists env p =
     catchA (bindA (stat env p) (\<lambda>stats. returnA (stats = Directory)))
       (\<lambda>e. if err_code e = Some (CodeStr ''ENOENT'') then returnA False else throwA e)"

definition repoExists :: "'b git_env \<Rightarrow> 'b BackportOptions_scheme \<Rightarrow> (bool, git_world) action" where
  "repoExists env options = folderExists env (getRepoPath env options)"

definition deleteRepo :: "'b git_env \<Rightarrow> 'b BackportOptions_scheme \<Rightarrow> (unit, git_world) action" where
  "deleteRepo env options = (let repoPath = getRepoPath env options in del env repoPath)"

definition getRemoteUrl :: "'b BackportOptions_scheme \<Rightarrow> string \<Rightarrow> string" where
  "getRemoteUrl options repoOwner' =
     ''https://'' @ accessToken options @ ''@'' @ gitHostname options @ ''/'' @ repoOwner' @
     ''/'' @ repoName options @ ''.git''"

text \<open>
  \<^verbatim>\<open>git clone\<close> runs in the owner folder and creates the repository folder, the one
  \<open>getRepoPath\<close> names. When it fails, the folder may or may not be left behind. (The
  progress callback only drives the spinner.)
\<close>

definition cloneRepo :: "'b git_env \<Rightarrow> 'b BackportOptions_scheme \<Rightarrow> (unit, git_world) action" where
  "cloneRepo env options w =
     (case exec env (''git clone '' @ getRemoteUrl options (repoOwner options) @ '' --progress'')
             (getRepoOwnerPath env options) w of
        (Inl e, w') \<Rightarrow>
          (Inl e, if cloneLeavesFolder env
                  then w'\<lparr>fs := (fs w')(getRepoPath env options \<mapsto> Directory)\<rparr> else w')
      | (Inr _, w') \<Rightarrow> (Inr (), w'\<lparr>fs := (fs w')(getRepoPath env options \<mapsto> Directory)\<rparr>))"

definition deleteRemote ::
  "'b git_env \<Rightarrow> 'b BackportOptions_scheme \<Rightarrow> string \<Rightarrow> (unit, git_world) action" where
  "deleteRemote env options remoteName =
     catchA (bindA (exec env (''git remote rm '' @ remoteName) (getRepoPath env options))
               (\<lambda>_. returnA ()))
       (\<lambda>e. let isExecError = (err_code e = Some (CodeNum 128))
            in if \<not> isExecError then throwA e else returnA ())"

definition addRemote ::
  "'b git_env \<Rightarrow> 'b BackportOptions_scheme \<Rightarrow> string \<Rightarrow> (unit, git_world) action" where
  "addRemote env options remoteName =
     catchA (bindA (exec env (''git remote add '' @ remoteName @ '' '' @
                              getRemoteUrl options remoteName) (getRepoPath env options))
               (\<lambda>_. returnA ()))
       (\<lambda>e. returnA ())"

text \<open>
  \<^verbatim>\<open>e.stderr?.toLowerCase().includes(needle)\<close>: \<^verbatim>\<open>undefined\<close> when the error has no
  \<^verbatim>\<open>stderr\<close>, which the \<^verbatim>\<open>||\<close> and the \<^verbatim>\<open>if\<close> treat as false.
\<close>

definition stderrLowerIncludes :: "error \<Rightarrow> string \<Rightarrow> bool" where
  "stderrLowerIncludes e needle =
     (case err_stderr e of None \<Rightarrow> False | Some s \<Rightarrow> str_includes (toLowerCase s) needle)"

definition createFeatureBranch ::
  "'b git_env \<Rightarrow> 'b BackportOptions_scheme \<Rightarrow> string \<Rightarrow> string \<Rightarrow> (ExecOutput, git_world) action" where
  "createFeatureBranch env options baseBranch featureBranch =
     catchA
       (exec env
          (''git reset --hard && git clean -d --force && git fetch '' @ repoOwner options @ '' '' @
           baseBranch @ '' && git checkout -B '' @ featureBranch @ '' '' @ repoOwner options @
           ''/'' @ baseBranch @ '' --no-track'')
          (getRepoPath env options))
       (\<lambda>e. let isBranchInvalid =
                  (stderrLowerIncludes e (''couldn'' @ squote @ ''t find remote ref'') \<or>
                   stderrLowerIncludes e ''Invalid refspec'')
            in if isBranchInvalid
               then throwA (HandledError (''The branch '' @ dquote @ baseBranch @ dquote @
                                          '' is invalid or doesn'' @ squote @ ''t exist''))
               else throwA e)"

definition getRemoteName :: "'b BackportOptions_scheme \<Rightarrow> string" where
  "getRemoteName options = (if fork options then username options else repoOwner options)"

definition pushFeatureBranch ::
  "'b git_env \<Rightarrow> 'b BackportOptions_scheme \<Rightarrow> string \<Rightarrow> (ExecOutput, git_world) action" where
  "pushFeatureBranch env options featureBranch =
     (let remoteName = getRemoteName options
      in exec env (''git push '' @ remoteName @ '' '' @ featureBranch @ '':'' @ featureBranch @
                   '' --force'') (getRepoPath env options))"

section \<open>Setting up the local clone: \<^verbatim>\<open>maybeSetupRepo\<close>\<close>

text \<open>The body of the \<^verbatim>\<open>try\<close> block.\<close>

definition cloneAndPrepare :: "'b git_env \<Rightarrow> 'b BackportOptions_scheme \<Rightarrow> (unit, git_world) action" where
  "cloneAndPrepare env options =
     bindA (makeDir env (getRepoOwnerPath env options)) (\<lambda>_.
     bindA (cloneRepo env options) (\<lambda>_.
     deleteRemote env options ''origin''))"

definition maybeSetupRepo :: "'b git_env \<Rightarrow> 'b BackportOptions_scheme \<Rightarrow> (unit, git_world) action" where
  "maybeSetupRepo env options =
     bindA (repoExists env options) (\<lambda>isAlreadyCloned.
     bindA (if \<not> isAlreadyCloned
            then catchA (cloneAndPrepare env options)
                   (\<lambda>e. bindA (deleteRepo env options) (\<lambda>_. throwA e))
            else returnA ()) (\<lambda>_.
     bindA (deleteRemote env options (username options)) (\<lambda>_.
     bindA (addRemote env options (username options)) (\<lambda>_.
     if username options \<noteq> repoOwner options
     then bindA (deleteRemote env options (repoOwner options)) (\<lambda>_.
          addRemote env options (repoOwner options))
     else returnA ()))))"

section \<open>The backport pipeline: \<^verbatim>\<open>doBackportVersions\<close>\<close>

text \<open>\<^verbatim>\<open>res.data\<close> of a created pull request.\<close>

record PullRequestData =
  html_url :: string
  data_number :: nat

text \<open>
  Every call that leaves the pipeline: the functions of \<^verbatim>\<open>lib/git\<close>, \<^verbatim>\<open>lib/github\<close>
  and \<^verbatim>\<open>lib/prompts\<close> (none of them among the sources) and the console. The world of the
  pipeline is the list of the calls made so far, in order.
\<close>

datatype call =
    GetPullRequestByCommit string string string
  | ResetAndPullMaster string string
  | CreateAndCheckoutBranch string string string string
  | Cherrypick string string string
  | ConfirmConflictResolved
  | IsIndexDirty string string
  | Push string string string string
  | CreatePullRequest string string GithubPullRequestPayload
  | AddLabels string string nat "string list"
  | ConsoleLog string
  | ConsoleError error

type_synonym world = "call list"

text \<open>
  The outside answers each call, knowing the calls made before it: a rejection or a value.
  \<open>voidResult\<close> answers the calls whose value the pipeline never reads, \<open>boolResult\<close> the
  prompt and the index check. \<open>GITHUB_ERROR\<close> is the constant of \<^verbatim>\<open>lib/constants\<close>.
\<close>

record js_env =
  GITHUB_ERROR :: errcode
  voidResult :: "world \<Rightarrow> call \<Rightarrow> error + unit"
  boolResult :: "world \<Rightarrow> call \<Rightarrow> error + bool"
  pullRequestResult :: "world \<Rightarrow> call \<Rightarrow> error + nat option"
  createdResult :: "world \<Rightarrow> call \<Rightarrow> error + PullRequestData"

definition performA :: "(world \<Rightarrow> call \<Rightarrow> error + 'a) \<Rightarrow> call \<Rightarrow> ('a, world) action" where
  "performA oracle c w = (oracle w c, w @ [c])"

text \<open>
  A promise of the pipeline, run from a world: \<open>None\<close> when it never settles, otherwise
  the rejection or the value, and the world it leaves.
\<close>

type_synonym 'a promise = "world \<Rightarrow> ((error + 'a) \<times> world) option"

definition liftP :: "('a, world) action \<Rightarrow> 'a promise" where
  "liftP a w = Some (a w)"

definition resolveP :: "'a \<Rightarrow> 'a promise" where
  "resolveP x w = Some (Inr x, w)"

definition rejectP :: "error \<Rightarrow> 'a promise" where
  "rejectP e w = Some (Inl e, w)"

definition thenP :: "'a promise \<Rightarrow> ('a \<Rightarrow> 'b promise) \<Rightarrow> 'b promise" where
  "thenP p f w =
     (case p w of
        None \<Rightarrow> None
      | Some (Inl e, w') \<Rightarrow> Some (Inl e, w')
      | Some (Inr x, w') \<Rightarrow> f x w')"

definition catchP :: "'a promise \<Rightarrow> (error \<Rightarrow> 'a promise) \<Rightarrow> 'a promise" where
  "catchP p handler w =
     (case p w of
        None \<Rightarrow> None
      | Some (Inl e, w') \<Rightarrow> handler e w'
      | Some (Inr x, w') \<Rightarrow> Some (Inr x, w'))"

definition consoleLog :: "string \<Rightarrow> unit promise" where
  "consoleLog s w = Some (Inr (), w @ [ConsoleLog s])"

definition consoleError :: "error \<Rightarrow> unit promise" where
  "consoleError e w = Some (Inr (), w @ [ConsoleError e])"

definition getPullRequestByCommit :: "js_env \<Rightarrow> string \<Rightarrow> string \<Rightarrow> string \<Rightarrow> (nat option, world) action" where
  "getPullRequestByCommit env owner repoName' sha' =
     performA (pullRequestResult env) (GetPullRequestByCommit owner repoName' sha')"

definition resetAndPullMaster :: "js_env \<Rightarrow> string \<Rightarrow> string \<Rightarrow> (unit, world) action" where
  "resetAndPullMaster env owner repoName' =
     performA (voidResult env) (ResetAndPullMaster owner repoName')"

definition createAndCheckoutBranch ::
  "js_env \<Rightarrow> string \<Rightarrow> string \<Rightarrow> string \<Rightarrow> string \<Rightarrow> (unit, world) action" where
  "createAndCheckoutBranch env owner repoName' version backportBranchName =
     performA (voidResult env) (CreateAndCheckoutBranch owner repoName' version backportBranchName)"

definition cherrypick :: "js_env \<Rightarrow> string \<Rightarrow> string \<Rightarrow> string \<Rightarrow> (unit, world) action" where
  "cherrypick env owner repoName' sha' = performA (voidResult env) (Cherrypick owner repoName' sha')"

definition isIndexDirty :: "js_env \<Rightarrow> string \<Rightarrow> string \<Rightarrow> (bool, world) action" where
  "isIndexDirty env owner repoName' = performA (boolResult env) (IsIndexDirty owner repoName')"

definition confirmConflictResolved :: "js_env \<Rightarrow> (bool, world) action" where
  "confirmConflictResolved env = performA (boolResult env) ConfirmConflictResolved"

definition push :: "js_env \<Rightarrow> string \<Rightarrow> string \<Rightarrow> string \<Rightarrow> string \<Rightarrow> (unit, world) action" where
  "push env owner repoName' username' backportBranchName =
     performA (voidResult env) (Push owner repoName' username' backportBranchName)"

definition createPullRequest ::
  "js_env \<Rightarrow> string \<Rightarrow> string \<Rightarrow> GithubPullRequestPayload \<Rightarrow> (PullRequestData, world) action" where
  "createPullRequest env owner repoName' payload =
     performA (createdResult env) (CreatePullRequest owner repoName' payload)"

definition addLabels ::
  "js_env \<Rightarrow> string \<Rightarrow> string \<Rightarrow> nat \<Rightarrow> string list \<Rightarrow> (unit, world) action" where
  "addLabels env owner repoName' n labels =
     performA (voidResult env) (AddLabels owner repoName' n labels)"

text \<open>
  \<^verbatim>\<open>withSpinner\<close> passes the value and the rejection of its promise through; the spinner
  itself is not part of the world.
\<close>

definition withSpinner :: "'a promise \<Rightarrow> string \<Rightarrow> string option \<Rightarrow> 'a promise" where
  "withSpinner promise text' errorText =
     catchP (thenP promise (\<lambda>res. resolveP res)) (\<lambda>e. rejectP e)"

text \<open>
  \<^verbatim>\<open>items.reduce((p, item) => p.then(() => handler(item)), Promise.resolve())\<close>
\<close>

definition sequentially :: "'a list \<Rightarrow> ('a \<Rightarrow> unit promise) \<Rightarrow> unit promise" where
  "sequentially items handler =
     foldl (\<lambda>p item. thenP p (\<lambda>_. handler item)) (resolveP ()) items"

text \<open>
  \<^verbatim>\<open>Promise.all\<close> over the look-ups: every request is issued, in the order of the commits;
  the result is the list of the commits with their pull requests, or a rejection (the
  model takes the first one in commit order).
\<close>

fun withPullRequest :: "js_env \<Rightarrow> string \<Rightarrow> string \<Rightarrow> Commit list \<Rightarrow> (Commit list, world) action" where
  "withPullRequest env owner repoName' [] = returnA []"
| "withPullRequest env owner repoName' (commit # commits) =
     (\<lambda>w. case getPullRequestByCommit env owner repoName' (sha commit) w of
            (r, w1) \<Rightarrow>
              (case withPullRequest env owner repoName' commits w1 of
                 (rs, w2) \<Rightarrow>
                   ((case r of
                       Inl e \<Rightarrow> Inl e
                     | Inr pullRequest' \<Rightarrow>
                         (case rs of
                            Inl e \<Rightarrow> Inl e
                          | Inr cs \<Rightarrow> Inr (commit\<lparr>pullRequest := pullRequest'\<rparr> # cs))), w2)))"

text \<open>
  \<^verbatim>\<open>e.cmd.includes('git cherry-pick')\<close>: a \<^verbatim>\<open>TypeError\<close> when the error has no
  \<^verbatim>\<open>cmd\<close>.
\<close>

definition isCherrypickConflict :: "error \<Rightarrow> error + bool" where
  "isCherrypickConflict e =
     (case err_cmd e of
        None \<Rightarrow> Inl (TypeError ''Cannot read property includes of undefined'')
      | Some c \<Rightarrow> Inr (str_includes c ''git cherry-pick''))"

text \<open>
  The confirmation loop. The value the prompt resolves with is dropped
  (\<^verbatim>\<open>.then(() => isIndexDirty(owner, repoName))\<close>); the loop goes on while the index is
  dirty and may never end.
\<close>

partial_function (option) confirmResolvedRecursive ::
  "js_env \<Rightarrow> string \<Rightarrow> string \<Rightarrow> world \<Rightarrow> ((error + unit) \<times> world) option" where
  "confirmResolvedRecursive env owner repoName' w =
     (case confirmConflictResolved env w of
        (Inl e, w1) \<Rightarrow> Some (Inl e, w1)
      | (Inr _, w1) \<Rightarrow>
          (case isIndexDirty env owner repoName' w1 of
             (Inl e, w2) \<Rightarrow> Some (Inl e, w2)
           | (Inr isDirty, w2) \<Rightarrow>
               if isDirty then confirmResolvedRecursive env owner repoName' w2
               else Some (Inr (), w2)))"

declare confirmResolvedRecursive.simps [code]

definition cherrypickAndConfirm :: "js_env \<Rightarrow> string \<Rightarrow> string \<Rightarrow> string \<Rightarrow> unit promise" where
  "cherrypickAndConfirm env owner repoName' sha' =
     catchP
       (withSpinner (liftP (cherrypick env owner repoName' sha')) ''Cherry-picking commit''
          (Some ''Cherry-picking failed. Please resolve conflicts''))
       (\<lambda>e. case isCherrypickConflict e of
              Inl typeError \<Rightarrow> rejectP typeError
            | Inr conflict \<Rightarrow>
                if \<not> conflict then rejectP e
                else confirmResolvedRecursive env owner repoName')"

definition doBackportVersion ::
  "js_env \<Rightarrow> string \<Rightarrow> string \<Rightarrow> Commit list \<Rightarrow> string \<Rightarrow> string \<Rightarrow> string list \<Rightarrow>
   PullRequestData promise" where
  "doBackportVersion env owner repoName' commits version username' labels =
     (let backportBranchName = getBackportBranchName version commits;
          refValues = join '', '' (map getReferenceLong commits)
      in thenP (consoleLog (''Backporting '' @ refValues @ '' to '' @ version)) (\<lambda>_.
         thenP (withSpinner
                  (thenP (liftP (resetAndPullMaster env owner repoName')) (\<lambda>_.
                     liftP (createAndCheckoutBranch env owner repoName' version backportBranchName)))
                  ''Pulling latest changes'' None) (\<lambda>_.
         thenP (sequentially commits (\<lambda>commit.
                  cherrypickAndConfirm env owner repoName' (sha commit))) (\<lambda>_.
         thenP (withSpinner (liftP (push env owner repoName' username' backportBranchName))
                  (''Pushing branch '' @ username' @ '':'' @ backportBranchName) None) (\<lambda>_.
         (let payload = getPullRequestPayload version commits username'
          in withSpinner
               (thenP (liftP (createPullRequest env owner repoName' payload)) (\<lambda>res.
                  if length labels > 0
                  then thenP (liftP (addLabels env owner repoName' (data_number res) labels))
                         (\<lambda>_. resolveP res)
                  else resolveP res))
               ''Creating pull request'' None))))))"

definition handleErrors :: "js_env \<Rightarrow> error \<Rightarrow> unit promise" where
  "handleErrors env e =
     (if err_code e = Some (GITHUB_ERROR env) then resolveP () else consoleError e)"

definition doBackportVersions ::
  "js_env \<Rightarrow> string \<Rightarrow> string \<Rightarrow> Commit list \<Rightarrow> string list \<Rightarrow> string \<Rightarrow> string list \<Rightarrow>
   unit promise" where
  "doBackportVersions env owner repoName' commits versions username' labels =
     sequentially versions (\<lambda>version.
       catchP
         (thenP
            (thenP (liftP (withPullRequest env owner repoName' commits))
               (\<lambda>commitsWithPullRequest.
                  doBackportVersion env owner repoName' commitsWithPullRequest version
                    username' labels))
            (\<lambda>res. consoleLog (''View pull request: '' @ html_url res @ newline)))
         (handleErrors env))"

section \<open>Reading the list of calls\<close>

text \<open>Which calls are prompts, index checks, pushes, pull-request creations, label calls.\<close>

fun isPromptCall :: "call \<Rightarrow> bool" where
  "isPromptCall ConfirmConflictResolved = True"
| "isPromptCall _ = False"

fun isIndexDirtyCall :: "call \<Rightarrow> bool" where
  "isIndexDirtyCall (IsIndexDirty owner repoName') = True"
| "isIndexDirtyCall _ = False"

fun isPushCall :: "call \<Rightarrow> bool" where
  "isPushCall (Push owner repoName' username' branch) = True"
| "isPushCall _ = False"

fun isCreatePullRequestCall :: "call \<Rightarrow> bool" where
  "isCreatePullRequestCall (CreatePullRequest owner repoName' payload) = True"
| "isCreatePullRequestCall _ = False"

fun isAddLabelsCall :: "call \<Rightarrow> bool" where
  "isAddLabelsCall (AddLabels owner repoName' n labels) = True"
| "isAddLabelsCall _ = False"

definition countCalls :: "(call \<Rightarrow> bool) \<Rightarrow> world \<Rightarrow> nat" where
  "countCalls P w = length (filter P w)"

text \<open>\<open>n\<close> rounds of the confirmation loop: a prompt and an index check each.\<close>

definition conflictRounds :: "nat \<Rightarrow> string \<Rightarrow> string \<Rightarrow> call list" where
  "conflictRounds n owner repoName' =
     concat (replicate n [ConfirmConflictResolved, IsIndexDirty owner repoName'])"

text \<open>What \<open>handleErrors\<close> adds to the list of calls for an error.\<close>

definition errorReport :: "js_env \<Rightarrow> error \<Rightarrow> call list" where
  "errorReport env e = (if err_code e = Some (GITHUB_ERROR env) then [] else [ConsoleError e])"

text \<open>A promise only ever adds calls to the list: whenever it settles, the old list is a
  prefix of the new one.\<close>

definition grows :: "'a promise \<Rightarrow> bool" where
  "grows p = (\<forall>w r w'. p w = Some (r, w') \<longrightarrow> prefix w w')"

section \<open>Example data\<close>

text \<open>The options and commits of the repository's tests, used to run the model.\<close>

definition kibanaOptions :: BackportOptions where
  "kibanaOptions =
     \<lparr> accessToken = ''myAccessToken'', gitHostname = ''github.com'', repoOwner = ''elastic'',
       repoName = ''kibana'', username = ''sqren'', fork = False, sourceBranch = ''master'',
       maxNumber = 10, path = None, all_opt = False, author = ''sqren'',
       branchLabelMapping = [] \<rparr>"

definition plainHelpers :: "(unit, string) helpers" where
  "plainHelpers =
     \<lparr> getFormattedCommitMessage = (\<lambda>msg n s. msg),
       getExistingTargetPullRequests = (\<lambda>msg node. []),
       getPullRequestLabels = (\<lambda>node. []),
       getTargetBranchesFromLabels = (\<lambda>existing mapping labels. []) \<rparr>"

text \<open>
  A history entry whose associated pull request was merged in this repository as this
  commit, and one whose associated pull request belongs to another owner.
\<close>

definition mergedEdge :: "unit HistoryNode" where
  "mergedEdge =
     \<lparr> oid = ''abc123'', node_message = ''Fix (#10) again (#20)'',
       associatedPullRequests =
         [\<lparr> number = 77, repository_name = ''kibana'', repository_owner_login = ''elastic'',
            mergeCommit_oid = Some ''abc123'' \<rparr>] \<rparr>"

definition foreignEdge :: "unit HistoryNode" where
  "foreignEdge =
     \<lparr> oid = ''abc123'', node_message = ''Fix (#10) again (#20)'',
       associatedPullRequests =
         [\<lparr> number = 77, repository_name = ''kibana'', repository_owner_login = ''someone'',
            mergeCommit_oid = Some ''abc123'' \<rparr>] \<rparr>"

text \<open>
  A git environment in which every shell command fails the way \<^verbatim>\<open>git fetch\<close> fails on
  a malformed branch name, and one in which \<^verbatim>\<open>git clone\<close> breaks off and leaves the
  repository folder behind.
\<close>

definition invalidRefspecError :: error where
  "invalidRefspecError =
     Error ''Command failed: git fetch'' (Some (CodeNum 128)) (Some ''git fetch elastic my..branch'')
       (Some (''fatal: Invalid refspec '' @ squote @ ''my..branch'' @ squote))"

definition homePaths :: "(BackportOptions \<Rightarrow> string) \<times> (BackportOptions \<Rightarrow> string)" where
  "homePaths =
     ((\<lambda>options. ''/myHomeDir/.backport/repositories/'' @ repoOwner options @ ''/'' @
                   repoName options),
      (\<lambda>options. ''/myHomeDir/.backport/repositories/'' @ repoOwner options))"

definition refspecEnv :: "unit git_env" where
  "refspecEnv =
     \<lparr> getRepoPath = fst homePaths, getRepoOwnerPath = snd homePaths,
       statError = (\<lambda>p. None), makeDirError = (\<lambda>p. None), delError = (\<lambda>p. None),
       execResult = (\<lambda>log cmd cwd. Inl invalidRefspecError),
       cloneLeavesFolder = False \<rparr>"

definition cloneError :: error where
  "cloneError =
     Error ''Command failed: git clone'' (Some (CodeNum 128)) (Some ''git clone'')
       (Some ''fatal: the remote end hung up unexpectedly'')"

definition brokenCloneEnv :: "unit git_env" where
  "brokenCloneEnv =
     \<lparr> getRepoPath = fst homePaths, getRepoOwnerPath = snd homePaths,
       statError = (\<lambda>p. None), makeDirError = (\<lambda>p. None), delError = (\<lambda>p. None),
       execResult = (\<lambda>log cmd cwd. Inl cloneError),
       cloneLeavesFolder = True \<rparr>"

text \<open>
  The same broken clone when \<^verbatim>\<open>del\<close> refuses the repository path. \<^verbatim>\<open>deleteRepo\<close> calls
  \<^verbatim>\<open>del(repoPath)\<close> without the \<^verbatim>\<open>force\<close> option, and \<^verbatim>\<open>del\<close> then rejects every
  path outside the working directory of the process; the clone lives under the home
  directory, not under the project the tool is run from.
\<close>

definition delRefusal :: error where
  "delRefusal =
     Error ''Cannot delete files/directories outside the current working directory''
       None None None"

definition refusedDelEnv :: "unit git_env" where
  "refusedDelEnv = brokenCloneEnv \<lparr> delError := (\<lambda>p. Some delRefusal) \<rparr>"

definition emptyDisk :: git_world where
  "emptyDisk = \<lparr> fs = (\<lambda>p. None), execLog = [] \<rparr>"

text \<open>
  Environments for the pipeline. In all of them the pull request is created as number 1337.
  \<open>declineEnv\<close>: every cherry-pick stops on a conflict, the user answers the prompt with
  \<^verbatim>\<open>false\<close>, the index is clean. \<open>retryEnv\<close>: the cherry-pick of \<^verbatim>\<open>mySha\<close> stops on
  a conflict and the index is dirty at the first two checks. \<open>invalidBranchEnv\<close>: the
  branch \<^verbatim>\<open>5.x\<close> cannot be checked out.
\<close>

definition conflictError :: error where
  "conflictError =
     Error ''Command failed: git cherry-pick mySha'' (Some (CodeNum 1))
       (Some ''git cherry-pick mySha'') (Some ''error: could not apply mySha'')"

definition createdData :: PullRequestData where
  "createdData = \<lparr> html_url = ''myHtmlUrl'', data_number = 1337 \<rparr>"

definition declineEnv :: js_env where
  "declineEnv =
     \<lparr> GITHUB_ERROR = CodeStr ''GITHUB_ERROR'',
       voidResult = (\<lambda>w c. case c of Cherrypick owner repoName' s \<Rightarrow> Inl conflictError | _ \<Rightarrow> Inr ()),
       boolResult = (\<lambda>w c. Inr False),
       pullRequestResult = (\<lambda>w c. Inr None),
       createdResult = (\<lambda>w c. Inr createdData) \<rparr>"

definition retryEnv :: js_env where
  "retryEnv =
     \<lparr> GITHUB_ERROR = CodeStr ''GITHUB_ERROR'',
       voidResult = (\<lambda>w c. if c = Cherrypick ''elastic'' ''kibana'' ''mySha''
                            then Inl conflictError else Inr ()),
       boolResult = (\<lambda>w c. case c of
                              ConfirmConflictResolved \<Rightarrow> Inr True
                            | _ \<Rightarrow> Inr (countCalls isIndexDirtyCall w < 2)),
       pullRequestResult = (\<lambda>w c. Inr None),
       createdResult = (\<lambda>w c. Inr createdData) \<rparr>"

definition branchError :: error where
  "branchError = Error ''Command failed: git checkout'' (Some (CodeNum 128)) (Some ''git checkout'')
                   (Some ''fatal: not a valid object name'')"

definition invalidBranchEnv :: js_env where
  "invalidBranchEnv =
     \<lparr> GITHUB_ERROR = CodeStr ''GITHUB_ERROR'',
       voidResult = (\<lambda>w c. case c of
                              CreateAndCheckoutBranch owner repoName' version branch \<Rightarrow>
                                if version = ''5.x'' then Inl branchError else Inr ()
                            | _ \<Rightarrow> Inr ()),
       boolResult = (\<lambda>w c. Inr False),
       pullRequestResult = (\<lambda>w c. Inr None),
       createdResult = (\<lambda>w c. Inr createdData) \<rparr>"

definition plainCommit :: Commit where
  "plainCommit = \<lparr> sha = ''mySha'', message = ''myCommitMessage'', pullRequest = None \<rparr>"

definition directCommit :: Commit where
  "directCommit = \<lparr> sha = ''0a1b2c3d4e5f'', message = ''direct push'', pullRequest = None \<rparr>"

definition myCommit :: Commit where
  "myCommit = \<lparr> sha = ''mySha'', message = ''myCommitMessage (#1000)'', pullRequest = Some 1000 \<rparr>"

section \<open>Properties of the branch name and the payload\<close>

lemma getReferenceShort_spec:
  "pullRequest c \<noteq> Some 0 \<Longrightarrow> getReferenceShort c = shortRefSpec c"
  by (cases "pullRequest c")
     (simp_all add: getReferenceShort_def getReference_def truthyNumber_def shortRefSpec_def)

text \<open>
  Claim C1. For every target branch and every list of commits, the backport branch name is
  \<^verbatim>\<open>backport/<target>/<refs>\<close>, where \<^verbatim>\<open><refs>\<close> is the short references of the
  commits (\<^verbatim>\<open>pr-<number>\<close> when a pull request is associated, otherwise
  \<^verbatim>\<open>commit-<first 7 characters of the revision id>\<close>) joined by \<^verbatim>\<open>_\<close> and cut to at
  most 200 characters. The name is a function of the target and the commits alone. Pull
  requests are numbered from 1; the number \<open>0\<close>, which the truthiness test of the code
  would take for a missing pull request, is excluded by the hypothesis.
\<close>

theorem backport_branch_name:
  assumes "\<forall>c \<in> set commits. pullRequest c \<noteq> Some 0"
  shows "getBackportBranchName target commits =
           ''backport/'' @ target @ ''/'' @ take 200 (join ''_'' (map shortRefSpec commits))
         \<and> length (take 200 (join ''_'' (map shortRefSpec commits))) \<le> 200"
proof -
  from assms have "map getReferenceShort commits = map shortRefSpec commits"
    by (simp add: getReferenceShort_spec)
  then have "join ''_'' (map getReferenceShort commits) = join ''_'' (map shortRefSpec commits)"
    by (rule arg_cong)
  then show ?thesis
    unfolding getBackportBranchName_def Let_def by simp
qed

theorem backport_branch_name_witness:
  "pullRequest myCommit \<noteq> Some 0 \<and> pullRequest directCommit \<noteq> Some 0
   \<and> getBackportBranchName ''6.x'' [myCommit, directCommit]
       = ''backport/6.x/pr-1000_commit-0a1b2c3''"
proof -
  have h: "\<forall>c \<in> set [myCommit, directCommit]. pullRequest c \<noteq> Some 0"
    by (simp add: myCommit_def directCommit_def)
  have v: "take 200 (join ''_'' (map shortRefSpec [myCommit, directCommit]))
             = ''pr-1000_commit-0a1b2c3''"
    by code_simp
  show ?thesis
    using h backport_branch_name [OF h, of "''6.x''"] unfolding v by simp
qed




text \<open>
  Claim C7. For the commit \<^verbatim>\<open>{sha: "mySha", message: "myCommitMessage (#1000)",
  pullRequest: 1000}\<close> and the target \<^verbatim>\<open>6.x\<close> the branch name and the title are the ones
  the claim gives. The body line is not: replacing \<^verbatim>\<open>(#1000)\<close> by the empty string leaves
  the space before it, so the line has two spaces before the reference.
\<close>

theorem example_commit_payload:
  "getBackportBranchName ''6.x''
     [\<lparr>sha = ''mySha'', message = ''myCommitMessage (#1000)'', pullRequest = Some 1000\<rparr>]
     = ''backport/6.x/pr-1000''
   \<and> title (getPullRequestPayload ''6.x''
        [\<lparr>sha = ''mySha'', message = ''myCommitMessage (#1000)'', pullRequest = Some 1000\<rparr>] ''sqren'')
     = ''[6.x] myCommitMessage (#1000)''
   \<and> body (getPullRequestPayload ''6.x''
        [\<lparr>sha = ''mySha'', message = ''myCommitMessage (#1000)'', pullRequest = Some 1000\<rparr>] ''sqren'')
     = ''Backports the following commits to 6.x:'' @ newline @ '' - myCommitMessage  (#1000)''
   \<and> body (getPullRequestPayload ''6.x''
        [\<lparr>sha = ''mySha'', message = ''myCommitMessage (#1000)'', pullRequest = Some 1000\<rparr>] ''sqren'')
     \<noteq> ''Backports the following commits to 6.x:'' @ newline @ '' - myCommitMessage (#1000)''"
  by code_simp

section \<open>Properties of commit resolution\<close>

lemma str_includes_iff: "str_includes s sub \<longleftrightarrow> (\<exists>pre post. s = pre @ sub @ post)"
proof (induction s)
  case Nil
  then show ?case by auto
next
  case (Cons c cs)
  show ?case
  proof
    assume "str_includes (c # cs) sub"
    then consider "prefix sub (c # cs)" | "str_includes cs sub" by auto
    then show "\<exists>pre post. c # cs = pre @ sub @ post"
    proof cases
      case 1
      then obtain post where "c # cs = sub @ post" by (auto simp: prefix_def)
      then have "c # cs = [] @ sub @ post" by simp
      then show ?thesis by blast
    next
      case 2
      with Cons.IH obtain pre post where "cs = pre @ sub @ post" by blast
      then have "c # cs = (c # pre) @ sub @ post" by simp
      then show ?thesis by blast
    qed
  next
    assume "\<exists>pre post. c # cs = pre @ sub @ post"
    then obtain pre post where eq: "c # cs = pre @ sub @ post" by blast
    show "str_includes (c # cs) sub"
    proof (cases pre)
      case Nil
      with eq have "prefix sub (c # cs)" by (simp add: prefix_def)
      then show ?thesis by simp
    next
      case (Cons a pre')
      with eq have "cs = pre' @ sub @ post" by simp
      with Cons.IH have "str_includes cs sub" by blast
      then show ?thesis by simp
    qed
  qed
qed

lemma str_includesI: "s = pre @ sub @ post \<Longrightarrow> str_includes s sub"
  by (auto simp: str_includes_iff)

lemma noCommitsErrorText_all:
  "all_opt options \<Longrightarrow>
     noCommitsErrorText options = ''There are no commits in this repository'' @ pathClause (path options)"
  by (simp add: noCommitsErrorText_def pathClause_def Let_def)

lemma noCommitsErrorText_author:
  "\<not> all_opt options \<Longrightarrow>
     noCommitsErrorText options =
       ''There are no commits by '' @ dquote @ author options @ dquote @ '' in this repository'' @
       pathClause (path options) @ ''. Try with '' @ backtick @ ''--all'' @ backtick @
       '' for commits by all users or '' @ backtick @ ''--author=<username>'' @ backtick @
       '' for commits from a specific user''"
  by (simp add: noCommitsErrorText_def pathClause_def Let_def)

lemma fetch_no_commits:
  assumes "fetchAuthorId options = Inr authorId"
      and "apiRequestV4 (queryVariables options authorId) = Inr res"
      and "repository_ref res = Some []"
  shows "fetchCommitsByAuthor h fetchAuthorId apiRequestV4 options =
           Inl (HandledError (noCommitsErrorText options))"
  using assms by (simp add: fetchCommitsByAuthor_def)

text \<open>
  Claim C8. When the history has no entry, \<open>fetchCommitsByAuthor\<close> fails with a
  \<^verbatim>\<open>HandledError\<close>. Without \<^verbatim>\<open>all\<close> the message names the author and suggests
  \<^verbatim>\<open>--all\<close> and \<^verbatim>\<open>--author\<close>; with \<^verbatim>\<open>all\<close> it is the sentence "There are no commits
  in this repository" followed by the path clause only, so it carries no suggestion; in both
  modes a non-empty path filter is mentioned.
\<close>

theorem no_commits_error:
  assumes "fetchAuthorId options = Inr authorId"
      and "apiRequestV4 (queryVariables options authorId) = Inr res"
      and "repository_ref res = Some []"
  shows "\<exists>msg. fetchCommitsByAuthor h fetchAuthorId apiRequestV4 options = Inl (HandledError msg)
     \<and> (\<not> all_opt options \<longrightarrow>
          prefix (''There are no commits by '' @ dquote @ author options @ dquote @
                  '' in this repository'' @ pathClause (path options)) msg
          \<and> str_includes msg (backtick @ ''--all'' @ backtick)
          \<and> str_includes msg (backtick @ ''--author=<username>'' @ backtick))
     \<and> (all_opt options \<longrightarrow>
          msg = ''There are no commits in this repository'' @ pathClause (path options))
     \<and> (all_opt options \<and> \<not> truthyString (path options) \<longrightarrow>
          \<not> str_includes msg ''--all'' \<and> \<not> str_includes msg ''--author'')
     \<and> (\<forall>p. path options = Some p \<and> p \<noteq> [] \<longrightarrow>
          str_includes msg ('' touching files in path: '' @ dquote @ p @ dquote))"
proof -
  let ?msg = "noCommitsErrorText options"
  have res: "fetchCommitsByAuthor h fetchAuthorId apiRequestV4 options = Inl (HandledError ?msg)"
    using assms by (simp add: fetchCommitsByAuthor_def)
  have author: "\<not> all_opt options \<longrightarrow>
          prefix (''There are no commits by '' @ dquote @ author options @ dquote @
                  '' in this repository'' @ pathClause (path options)) ?msg
          \<and> str_includes ?msg (backtick @ ''--all'' @ backtick)
          \<and> str_includes ?msg (backtick @ ''--author=<username>'' @ backtick)"
  proof
    assume na: "\<not> all_opt options"
    note eq = noCommitsErrorText_author [OF na]
    have 1: "prefix (''There are no commits by '' @ dquote @ author options @ dquote @
                  '' in this repository'' @ pathClause (path options)) ?msg"
      unfolding eq by (simp add: prefix_def)
    have 2: "str_includes ?msg (backtick @ ''--all'' @ backtick)"
      by (rule str_includesI [where pre = "''There are no commits by '' @ dquote @ author options @ dquote @ '' in this repository'' @
       pathClause (path options) @ ''. Try with ''" and post = "'' for commits by all users or '' @ backtick @ ''--author=<username>'' @ backtick @
       '' for commits from a specific user''"]) (simp add: eq)
    have 3: "str_includes ?msg (backtick @ ''--author=<username>'' @ backtick)"
      by (rule str_includesI [where pre = "''There are no commits by '' @ dquote @ author options @ dquote @ '' in this repository'' @
       pathClause (path options) @ ''. Try with '' @ backtick @ ''--all'' @ backtick @
       '' for commits by all users or ''" and post = "'' for commits from a specific user''"]) (simp add: eq)
    from 1 2 3 show "prefix (''There are no commits by '' @ dquote @ author options @ dquote @
                  '' in this repository'' @ pathClause (path options)) ?msg
          \<and> str_includes ?msg (backtick @ ''--all'' @ backtick)
          \<and> str_includes ?msg (backtick @ ''--author=<username>'' @ backtick)" by blast
  qed
  have allm: "all_opt options \<longrightarrow>
          ?msg = ''There are no commits in this repository'' @ pathClause (path options)"
    by (simp add: noCommitsErrorText_all)
  have nopath: "all_opt options \<and> \<not> truthyString (path options) \<longrightarrow>
          \<not> str_includes ?msg ''--all'' \<and> \<not> str_includes ?msg ''--author''"
  proof
    assume a: "all_opt options \<and> \<not> truthyString (path options)"
    then have "?msg = ''There are no commits in this repository''"
      by (simp add: noCommitsErrorText_all pathClause_def)
    moreover have "\<not> str_includes ''There are no commits in this repository'' ''--all''" by code_simp
    moreover have "\<not> str_includes ''There are no commits in this repository'' ''--author''" by code_simp
    ultimately show "\<not> str_includes ?msg ''--all'' \<and> \<not> str_includes ?msg ''--author''" by simp
  qed
  have pth: "\<forall>p. path options = Some p \<and> p \<noteq> [] \<longrightarrow>
          str_includes ?msg ('' touching files in path: '' @ dquote @ p @ dquote)"
  proof (intro allI impI)
    fix p assume p: "path options = Some p \<and> p \<noteq> []"
    then have pc: "pathClause (path options) = '' touching files in path: '' @ dquote @ p @ dquote"
      by (simp add: pathClause_def truthyString_def)
    show "str_includes ?msg ('' touching files in path: '' @ dquote @ p @ dquote)"
    proof (cases "all_opt options")
      case True
      show ?thesis
        by (rule str_includesI [where pre = "''There are no commits in this repository''" and post = "[]"])
           (simp add: noCommitsErrorText_all [OF True] pc)
    next
      case False
      show ?thesis
        by (rule str_includesI [where pre = "''There are no commits by '' @ dquote @ author options @ dquote @ '' in this repository''"
             and post = "''. Try with '' @ backtick @ ''--all'' @ backtick @
       '' for commits by all users or '' @ backtick @ ''--author=<username>'' @ backtick @
       '' for commits from a specific user''"])
           (simp add: noCommitsErrorText_author [OF False] pc)
    qed
  qed
  from res author allm nopath pth show ?thesis by blast
qed

theorem no_commits_error_witness:
  "\<exists>msg. fetchCommitsByAuthor plainHelpers (\<lambda>options. Inr (Some ''authorId''))
            (\<lambda>vars. Inr \<lparr>repository_ref = Some []\<rparr>) (kibanaOptions\<lparr>path := Some ''src''\<rparr>)
          = Inl (HandledError msg)
     \<and> str_includes msg (backtick @ ''--all'' @ backtick)
     \<and> str_includes msg ('' touching files in path: '' @ dquote @ ''src'' @ dquote)"
proof -
  have na: "\<not> all_opt (kibanaOptions\<lparr>path := Some ''src''\<rparr>)" by (simp add: kibanaOptions_def)
  have pa: "path (kibanaOptions\<lparr>path := Some ''src''\<rparr>) = Some ''src'' \<and> ''src'' \<noteq> []" by simp
  from no_commits_error [of "\<lambda>options. Inr (Some ''authorId'')" "kibanaOptions\<lparr>path := Some ''src''\<rparr>"
      "Some ''authorId''" "\<lambda>vars. Inr \<lparr>repository_ref = Some []\<rparr>" "\<lparr>repository_ref = Some []\<rparr>" plainHelpers]
  obtain msg where
    "fetchCommitsByAuthor plainHelpers (\<lambda>options. Inr (Some ''authorId''))
            (\<lambda>vars. Inr \<lparr>repository_ref = Some []\<rparr>) (kibanaOptions\<lparr>path := Some ''src''\<rparr>)
          = Inl (HandledError msg)"
    "\<not> all_opt (kibanaOptions\<lparr>path := Some ''src''\<rparr>) \<longrightarrow> str_includes msg (backtick @ ''--all'' @ backtick)"
    "\<forall>p. path (kibanaOptions\<lparr>path := Some ''src''\<rparr>) = Some p \<and> p \<noteq> [] \<longrightarrow>
          str_includes msg ('' touching files in path: '' @ dquote @ p @ dquote)"
    by auto
  with na pa show ?thesis by blast
qed

lemma not_isDigit_paren: "\<not> isDigit (CHR '')'')"
  by (simp add: isDigit_def)

lemma matchHere_iff:
  "matchPullNumberHere s = Some ds \<longleftrightarrow> (\<exists>post. pullNumberOccurrence s [] ds post)"
proof
  assume m: "matchPullNumberHere s = Some ds"
  then have p: "prefix ''(#'' s"
    by (simp add: matchPullNumberHere_def split: if_splits)
  then obtain t where s: "s = ''(#'' @ t" by (auto simp: prefix_def)
  then have t: "drop 2 s = t" by simp
  from m p t have ds: "ds = takeWhile isDigit t" and ne: "takeWhile isDigit t \<noteq> []"
    and pr: "prefix '')'' (dropWhile isDigit t)"
    by (auto simp: matchPullNumberHere_def Let_def split: if_splits)
  from pr obtain post where post: "dropWhile isDigit t = '')'' @ post" by (auto simp: prefix_def)
  have "t = takeWhile isDigit t @ dropWhile isDigit t" by simp
  with post ds have "t = ds @ '')'' @ post" by simp
  moreover have "list_all isDigit ds" unfolding ds list_all_iff by (auto dest: set_takeWhileD)
  ultimately show "\<exists>post. pullNumberOccurrence s [] ds post"
    using s ne ds by (auto simp: pullNumberOccurrence_def)
next
  assume "\<exists>post. pullNumberOccurrence s [] ds post"
  then obtain post where s: "s = ''(#'' @ ds @ '')'' @ post" and ne: "ds \<noteq> []"
    and dg: "list_all isDigit ds"
    by (auto simp: pullNumberOccurrence_def)
  have d2: "drop 2 s = ds @ CHR '')'' # post" using s by simp
  from dg have "\<And>x. x \<in> set ds \<Longrightarrow> isDigit x" by (simp add: list_all_iff)
  then have tw: "takeWhile isDigit (ds @ CHR '')'' # post) = ds"
    and dw: "dropWhile isDigit (ds @ CHR '')'' # post) = CHR '')'' # post"
    by (simp_all add: takeWhile_append2 dropWhile_append2 not_isDigit_paren)
  have "prefix ''(#'' s" using s by (simp add: prefix_def)
  then show "matchPullNumberHere s = Some ds"
    using ne by (simp add: matchPullNumberHere_def d2 tw dw Let_def)
qed

lemma matchHere_Nil [simp]: "matchPullNumberHere [] = None"
  by (simp add: matchPullNumberHere_def)

lemma matchPullNumber_None_iff:
  "matchPullNumber msg = None \<longleftrightarrow> (\<forall>k. matchPullNumberHere (drop k msg) = None)"
proof (induction msg)
  case Nil
  then show ?case by simp
next
  case (Cons c cs)
  show ?case
  proof
    assume n: "matchPullNumber (c # cs) = None"
    then have h: "matchPullNumberHere (c # cs) = None" and r: "matchPullNumber cs = None"
      by (auto split: option.splits)
    show "\<forall>k. matchPullNumberHere (drop k (c # cs)) = None"
    proof
      fix k show "matchPullNumberHere (drop k (c # cs)) = None"
        using h r Cons.IH by (cases k) auto
    qed
  next
    assume a: "\<forall>k. matchPullNumberHere (drop k (c # cs)) = None"
    then have "matchPullNumberHere (drop 0 (c # cs)) = None" by blast
    then have h: "matchPullNumberHere (c # cs) = None" by simp
    have "\<forall>k. matchPullNumberHere (drop k cs) = None"
    proof
      fix k from a have "matchPullNumberHere (drop (Suc k) (c # cs)) = None" by blast
      then show "matchPullNumberHere (drop k cs) = None" by simp
    qed
    with Cons.IH have "matchPullNumber cs = None" by blast
    with h show "matchPullNumber (c # cs) = None" by simp
  qed
qed

lemma matchPullNumber_leftmost:
  "matchPullNumberHere (drop k msg) = Some ds \<Longrightarrow>
   (\<forall>j<k. matchPullNumberHere (drop j msg) = None) \<Longrightarrow>
   matchPullNumber msg = Some ds"
proof (induction msg arbitrary: k)
  case Nil
  then show ?case by simp
next
  case (Cons c cs)
  show ?case
  proof (cases k)
    case 0
    with Cons.prems show ?thesis by simp
  next
    case (Suc k')
    with Cons.prems have h: "matchPullNumberHere (c # cs) = None" by force
    from Suc Cons.prems have 1: "matchPullNumberHere (drop k' cs) = Some ds" by simp
    have 2: "\<forall>j<k'. matchPullNumberHere (drop j cs) = None"
    proof (intro allI impI)
      fix j assume "j < k'"
      then have "Suc j < k" using Suc by simp
      with Cons.prems have "matchPullNumberHere (drop (Suc j) (c # cs)) = None" by blast
      then show "matchPullNumberHere (drop j cs) = None" by simp
    qed
    from Cons.IH [OF 1 2] h show ?thesis by simp
  qed
qed

lemma occurrence_at:
  assumes "pullNumberOccurrence (drop k msg) [] ds post"
  shows "pullNumberOccurrence msg (take k msg) ds post"
proof -
  have "msg = take k msg @ drop k msg" by simp
  also from assms have "drop k msg = ''(#'' @ ds @ '')'' @ post"
    by (simp add: pullNumberOccurrence_def)
  finally have "msg = take k msg @ ''(#'' @ ds @ '')'' @ post" .
  with assms show ?thesis by (simp add: pullNumberOccurrence_def)
qed

lemma occurrence_here:
  "pullNumberOccurrence msg pre ds post \<Longrightarrow>
   pullNumberOccurrence (drop (length pre) msg) [] ds post"
  by (simp add: pullNumberOccurrence_def)

lemma no_occurrence_None:
  assumes "\<not> (\<exists>pre ds post. pullNumberOccurrence msg pre ds post)"
  shows "getPullNumberFromMessage msg = None"
proof -
  have "\<forall>k. matchPullNumberHere (drop k msg) = None"
  proof
    fix k
    show "matchPullNumberHere (drop k msg) = None"
    proof (rule ccontr)
      assume "matchPullNumberHere (drop k msg) \<noteq> None"
      then obtain ds where "matchPullNumberHere (drop k msg) = Some ds" by auto
      then obtain post where o: "pullNumberOccurrence (drop k msg) [] ds post"
        by (auto simp: matchHere_iff)
      then have "drop k msg \<noteq> []" by (auto simp: pullNumberOccurrence_def)
      then have "k \<le> length msg" by simp
      from o have "pullNumberOccurrence msg (take k msg) ds post"
        by (rule occurrence_at)
      with assms show False by blast
    qed
  qed
  then have "matchPullNumber msg = None" by (simp add: matchPullNumber_None_iff)
  then show ?thesis by (simp add: getPullNumberFromMessage_def)
qed

lemma leftmost_occurrence_Some:
  assumes occ: "pullNumberOccurrence msg pre ds post"
      and left: "\<forall>pre' ds' post'. pullNumberOccurrence msg pre' ds' post' \<longrightarrow> length pre \<le> length pre'"
  shows "getPullNumberFromMessage msg = Some (parseInt ds)"
proof -
  from occ have here: "matchPullNumberHere (drop (length pre) msg) = Some ds"
    by (auto simp: matchHere_iff dest: occurrence_here)
  have "\<forall>j<length pre. matchPullNumberHere (drop j msg) = None"
  proof (intro allI impI)
    fix j assume j: "j < length pre"
    show "matchPullNumberHere (drop j msg) = None"
    proof (rule ccontr)
      assume "matchPullNumberHere (drop j msg) \<noteq> None"
      then obtain ds' where "matchPullNumberHere (drop j msg) = Some ds'" by auto
      then obtain post' where o: "pullNumberOccurrence (drop j msg) [] ds' post'"
        by (auto simp: matchHere_iff)
      then have "drop j msg \<noteq> []" by (auto simp: pullNumberOccurrence_def)
      then have jl: "j \<le> length msg" by simp
      from o have "pullNumberOccurrence msg (take j msg) ds' post'"
        by (rule occurrence_at)
      with left have "length pre \<le> length (take j msg)" by blast
      with jl j show False by simp
    qed
  qed
  with here have "matchPullNumber msg = Some ds" by (rule matchPullNumber_leftmost)
  then show ?thesis by (simp add: getPullNumberFromMessage_def)
qed

lemma isSourcePullRequest_iff:
  "isSourcePullRequest pr options s \<longleftrightarrow>
     (\<exists>node. pr = Some node \<and> mergeCommit_oid node = Some s \<and>
        repository_owner_login node = repoOwner options \<and>
        repository_name node = repoName options)"
  by (cases pr) (auto simp: isSourcePullRequest_def)

lemma ex_leftmost:
  "pullNumberOccurrence ''Fix (#10) again (#20)'' pre' ds' post' \<Longrightarrow> 4 \<le> length pre'"
  by (auto simp: pullNumberOccurrence_def Cons_eq_append_conv)

lemma occurrence_paren: "pullNumberOccurrence msg pre ds post \<Longrightarrow> CHR ''('' \<in> set msg"
  by (auto simp: pullNumberOccurrence_def)

text \<open>
  Claim C2, as the code has it. The associated pull request of a history entry is accepted
  exactly when it exists, its merge commit is the entry's commit and its repository owner
  and name are those of the options; then the commit takes its number. Otherwise the commit
  has no target branches and no existing pull requests, and its number is parsed from the
  first \<^verbatim>\<open>(#NNN)\<close> that occurs anywhere in the message: none when there is no occurrence,
  the digits of the leftmost occurrence otherwise.
\<close>

theorem source_pull_request_rule:
  "(isSourcePullRequest (firstNode (associatedPullRequests e)) options (oid e) \<longleftrightarrow>
      (\<exists>node. firstNode (associatedPullRequests e) = Some node \<and>
         mergeCommit_oid node = Some (oid e) \<and>
         repository_owner_login node = repoOwner options \<and>
         repository_name node = repoName options))
   \<and> (isSourcePullRequest (firstNode (associatedPullRequests e)) options (oid e) \<longrightarrow>
        pullNumber (commitFromEdge h options e) =
          Some (number (the (firstNode (associatedPullRequests e)))))
   \<and> (\<not> isSourcePullRequest (firstNode (associatedPullRequests e)) options (oid e) \<longrightarrow>
        pullNumber (commitFromEdge h options e) = getPullNumberFromMessage (node_message e)
        \<and> targetBranchesFromLabels (commitFromEdge h options e) = []
        \<and> existingTargetPullRequests (commitFromEdge h options e) = [])
   \<and> ((\<nexists>pre ds post. pullNumberOccurrence (node_message e) pre ds post) \<longrightarrow>
        getPullNumberFromMessage (node_message e) = None)
   \<and> (pullNumberOccurrence (node_message e) pre ds post \<and>
        (\<forall>pre' ds' post'. pullNumberOccurrence (node_message e) pre' ds' post' \<longrightarrow>
           length pre \<le> length pre') \<longrightarrow>
        getPullNumberFromMessage (node_message e) = Some (parseInt ds))"
proof (intro conjI impI)
  show "isSourcePullRequest (firstNode (associatedPullRequests e)) options (oid e) \<longleftrightarrow>
      (\<exists>node. firstNode (associatedPullRequests e) = Some node \<and>
         mergeCommit_oid node = Some (oid e) \<and>
         repository_owner_login node = repoOwner options \<and>
         repository_name node = repoName options)"
    by (rule isSourcePullRequest_iff)
next
  assume "isSourcePullRequest (firstNode (associatedPullRequests e)) options (oid e)"
  then show "pullNumber (commitFromEdge h options e) =
          Some (number (the (firstNode (associatedPullRequests e))))"
    by (simp add: commitFromEdge_def Let_def)
next
  assume n: "\<not> isSourcePullRequest (firstNode (associatedPullRequests e)) options (oid e)"
  then show "pullNumber (commitFromEdge h options e) = getPullNumberFromMessage (node_message e)"
    by (simp add: commitFromEdge_def Let_def)
  from n show "targetBranchesFromLabels (commitFromEdge h options e) = []"
    by (simp add: commitFromEdge_def Let_def)
  from n show "existingTargetPullRequests (commitFromEdge h options e) = []"
    by (simp add: commitFromEdge_def Let_def)
next
  assume "\<nexists>pre ds post. pullNumberOccurrence (node_message e) pre ds post"
  then show "getPullNumberFromMessage (node_message e) = None"
    by (rule no_occurrence_None)
next
  assume "pullNumberOccurrence (node_message e) pre ds post \<and>
        (\<forall>pre' ds' post'. pullNumberOccurrence (node_message e) pre' ds' post' \<longrightarrow>
           length pre \<le> length pre')"
  then show "getPullNumberFromMessage (node_message e) = Some (parseInt ds)"
    by (blast intro: leftmost_occurrence_Some)
qed

theorem source_pull_request_rule_witness:
  "isSourcePullRequest (firstNode (associatedPullRequests mergedEdge)) kibanaOptions (oid mergedEdge)
   \<and> pullNumber (commitFromEdge plainHelpers kibanaOptions mergedEdge) = Some 77
   \<and> \<not> isSourcePullRequest (firstNode (associatedPullRequests foreignEdge)) kibanaOptions (oid foreignEdge)
   \<and> pullNumberOccurrence (node_message foreignEdge) ''Fix '' ''10'' '' again (#20)''
   \<and> pullNumber (commitFromEdge plainHelpers kibanaOptions foreignEdge) = Some 10"
proof -
  have a: "isSourcePullRequest (firstNode (associatedPullRequests mergedEdge)) kibanaOptions (oid mergedEdge)"
    by code_simp
  have n: "number (the (firstNode (associatedPullRequests mergedEdge))) = 77"
    by code_simp
  have r: "\<not> isSourcePullRequest (firstNode (associatedPullRequests foreignEdge)) kibanaOptions (oid foreignEdge)"
    by code_simp
  have m: "node_message foreignEdge = ''Fix (#10) again (#20)''"
    by (simp add: foreignEdge_def)
  have o: "pullNumberOccurrence (node_message foreignEdge) ''Fix '' ''10'' '' again (#20)''"
    unfolding m by code_simp
  have l: "\<forall>pre' ds' post'. pullNumberOccurrence (node_message foreignEdge) pre' ds' post' \<longrightarrow>
             length ''Fix '' \<le> length pre'"
    unfolding m by (auto dest: ex_leftmost)
  have p: "parseInt ''10'' = 10" by code_simp
  from a n source_pull_request_rule [of mergedEdge kibanaOptions plainHelpers]
  have 1: "pullNumber (commitFromEdge plainHelpers kibanaOptions mergedEdge) = Some 77" by simp
  from r o l p source_pull_request_rule [of foreignEdge kibanaOptions plainHelpers "''Fix ''" "''10''" "'' again (#20)''"]
  have 2: "pullNumber (commitFromEdge plainHelpers kibanaOptions foreignEdge) = Some 10" by simp
  from a 1 r o 2 show ?thesis by blast
qed

text \<open>
  Claim C2 as stated fails on a message with two references: the code takes the first,
  \<^verbatim>\<open>(#10)\<close>, where the trailing one is \<^verbatim>\<open>(#20)\<close>.
\<close>

theorem first_match_counterexample:
  "getPullNumberFromMessage ''Revert Add feature (#10) (#20)'' = Some 10
   \<and> trailingPullNumber ''Revert Add feature (#10) (#20)'' = Some 20"
  by code_simp

section \<open>Properties of the git service\<close>

lemma lowerChar_not_upper: "\<not> isUpper (lowerChar c)"
proof (cases "isUpper c")
  case True
  then have "of_char (lowerChar c) = (of_char c + 32 :: nat)"
    by (simp add: lowerChar_def isUpper_def)
  with True show ?thesis by (simp add: isUpper_def)
next
  case False
  then show ?thesis by (simp add: lowerChar_def)
qed

lemma str_includes_set: "str_includes s sub \<Longrightarrow> set sub \<subseteq> set s"
  by (auto simp: str_includes_iff)

lemma lower_never_includes_upper:
  assumes "c \<in> set needle" and "isUpper c"
  shows "\<not> str_includes (toLowerCase s) needle"
proof
  assume "str_includes (toLowerCase s) needle"
  then have "set needle \<subseteq> set (toLowerCase s)" by (rule str_includes_set)
  with assms(1) have "c \<in> set (toLowerCase s)" by blast
  then obtain d where "c = lowerChar d" by (auto simp: toLowerCase_def)
  with assms(2) lowerChar_not_upper show False by blast
qed

lemma invalid_refspec_never_matches: "\<not> stderrLowerIncludes e ''Invalid refspec''"
proof -
  have "CHR ''I'' \<in> set ''Invalid refspec''" by simp
  moreover have "isUpper (CHR ''I'')" by (simp add: isUpper_def)
  ultimately have "\<And>s. \<not> str_includes (toLowerCase s) ''Invalid refspec''"
    by (rule lower_never_includes_upper)
  then show ?thesis by (simp add: stderrLowerIncludes_def split: option.splits)
qed

lemma createFeatureBranch_failure:
  assumes "execResult env (execLog w) cmd (getRepoPath env options) = Inl e"
      and "cmd = ''git reset --hard && git clean -d --force && git fetch '' @ repoOwner options @ '' '' @
           baseBranch @ '' && git checkout -B '' @ featureBranch @ '' '' @ repoOwner options @
           ''/'' @ baseBranch @ '' --no-track''"
  shows "fst (createFeatureBranch env options baseBranch featureBranch w) =
           (if stderrLowerIncludes e (''couldn'' @ squote @ ''t find remote ref'')
            then Inl (HandledError (''The branch '' @ dquote @ baseBranch @ dquote @
                                    '' is invalid or doesn'' @ squote @ ''t exist''))
            else Inl e)"
  using assms invalid_refspec_never_matches [of e]
  by (simp add: createFeatureBranch_def catchA_def exec_def throwA_def Let_def)

text \<open>
  Claim C9. A failed branch set-up whose \<^verbatim>\<open>stderr\<close> carries the missing-remote-ref or
  the invalid-refspec signature should fail with a \<^verbatim>\<open>HandledError\<close> naming the branch.
  The second test searches the lower-cased \<^verbatim>\<open>stderr\<close> for \<^verbatim>\<open>Invalid refspec\<close>, with a
  capital letter, and so never succeeds (\<open>invalid_refspec_never_matches\<close>): on
  \<^verbatim>\<open>fatal: Invalid refspec 'my..branch'\<close> the original error is rethrown unchanged.
\<close>

theorem invalid_refspec_rethrown:
  "fst (createFeatureBranch refspecEnv kibanaOptions ''my..branch'' ''backport/my..branch/pr-1000''
          emptyDisk) = Inl invalidRefspecError
   \<and> err_stderr invalidRefspecError = Some (''fatal: Invalid refspec '' @ squote @ ''my..branch'' @ squote)
   \<and> \<not> isHandledError invalidRefspecError"
  by code_simp

section \<open>Properties of the repository set-up\<close>

lemma stat_world: "snd (stat env p w) = w"
  by (simp add: stat_def split: option.splits)

lemma folderExists_world: "snd (folderExists env p w) = w"
proof -
  obtain r where r: "stat env p w = (r, w)"
    using stat_world [of env p w] by (cases "stat env p w") simp
  show ?thesis
    by (cases r) (simp_all add: folderExists_def catchA_def bindA_def returnA_def throwA_def r)
qed

lemma repoExists_world: "snd (repoExists env options w) = w"
  by (simp add: repoExists_def folderExists_world)

lemma folderExists_absent:
  "fs w p = None \<Longrightarrow> fst (folderExists env p w) \<noteq> Inr True"
  by (simp add: folderExists_def catchA_def bindA_def returnA_def throwA_def stat_def enoent_def
           split: option.splits)

lemma deleteRepo_ok:
  assumes "delError env (getRepoPath env options) = None"
  shows "fst (deleteRepo env options w) = Inr ()"
    and "fs (snd (deleteRepo env options w)) (getRepoPath env options) = None"
    and "execLog (snd (deleteRepo env options w)) = execLog w"
  using assms by (simp_all add: deleteRepo_def del_def Let_def)

lemma deleteRepo_refused:
  assumes "delError env (getRepoPath env options) = Some e'"
  shows "deleteRepo env options w = (Inl e', w)"
  using assms by (simp add: deleteRepo_def del_def Let_def)

text \<open>
  When the cloning block fails and \<^verbatim>\<open>del\<close> does its work, \<open>maybeSetupRepo\<close> fails with
  the error of the block and leaves no entry at the repository path.
\<close>

lemma failed_setup_cleanup_when_del_succeeds:
  assumes notCloned: "fst (repoExists env options w) = Inr False"
      and fails: "fst (cloneAndPrepare env options w) = Inl e"
      and delOk: "delError env (getRepoPath env options) = None"
  shows "fst (maybeSetupRepo env options w) = Inl e
         \<and> fs (snd (maybeSetupRepo env options w)) (getRepoPath env options) = None"
proof -
  from notCloned repoExists_world [of env options w]
  have ex: "repoExists env options w = (Inr False, w)"
    by (cases "repoExists env options w") simp
  obtain w1 where cp: "cloneAndPrepare env options w = (Inl e, w1)"
    using fails by (cases "cloneAndPrepare env options w") simp
  obtain w2 where dr: "deleteRepo env options w1 = (Inr (), w2)"
    using deleteRepo_ok(1) [OF delOk, of w1] by (cases "deleteRepo env options w1") simp
  have gone: "fs w2 (getRepoPath env options) = None"
    using deleteRepo_ok(2) [OF delOk, of w1] dr by simp
  have run: "maybeSetupRepo env options w = (Inl e, w2)"
    by (simp add: maybeSetupRepo_def bindA_def catchA_def throwA_def ex cp dr)
  from run gone show ?thesis by simp
qed

text \<open>
  When \<^verbatim>\<open>del\<close> is rejected, its error takes the place of the error of the block, and the
  world is the one the failed block left: whatever the clone created is still there.
\<close>

lemma failed_setup_when_del_is_refused:
  assumes notCloned: "fst (repoExists env options w) = Inr False"
      and fails: "fst (cloneAndPrepare env options w) = Inl e"
      and refused: "delError env (getRepoPath env options) = Some e'"
  shows "maybeSetupRepo env options w = (Inl e', snd (cloneAndPrepare env options w))"
proof -
  from notCloned repoExists_world [of env options w]
  have ex: "repoExists env options w = (Inr False, w)"
    by (cases "repoExists env options w") simp
  obtain w1 where cp: "cloneAndPrepare env options w = (Inl e, w1)"
    using fails by (cases "cloneAndPrepare env options w") simp
  have dr: "deleteRepo env options w1 = (Inl e', w1)"
    using refused by (rule deleteRepo_refused)
  show ?thesis
    by (simp add: maybeSetupRepo_def bindA_def catchA_def throwA_def ex cp dr)
qed

text \<open>
  Claim C10. A clone that fails partway should be deleted before its error is passed on,
  so that no later run finds a repository folder. The \<^verbatim>\<open>catch\<close> block does call
  \<^verbatim>\<open>deleteRepo\<close>, but that is \<^verbatim>\<open>del(repoPath)\<close> without the \<^verbatim>\<open>force\<close> option, which
  \<^verbatim>\<open>del\<close> refuses for a path outside the working directory of the process. With the
  repository under the home directory the deletion is rejected: \<open>maybeSetupRepo\<close> fails
  with the error of \<^verbatim>\<open>del\<close> instead of the error of the clone, the folder the clone left
  is still a directory, and the existence check of the next run answers true.
\<close>

theorem failed_clone_stays_on_disk:
  "fst (repoExists refusedDelEnv kibanaOptions emptyDisk) = Inr False
   \<and> fst (cloneAndPrepare refusedDelEnv kibanaOptions emptyDisk) = Inl cloneError
   \<and> fst (maybeSetupRepo refusedDelEnv kibanaOptions emptyDisk) = Inl delRefusal
   \<and> fs (snd (maybeSetupRepo refusedDelEnv kibanaOptions emptyDisk))
        (getRepoPath refusedDelEnv kibanaOptions) = Some Directory
   \<and> fst (repoExists refusedDelEnv kibanaOptions
             (snd (maybeSetupRepo refusedDelEnv kibanaOptions emptyDisk))) = Inr True"
  by code_simp

section \<open>Properties of the backport pipeline\<close>

lemma thenP_resolveP [simp]: "thenP (resolveP x) f = f x"
  by (rule ext) (simp add: thenP_def resolveP_def)

lemma thenP_rejectP [simp]: "thenP (rejectP e) f = rejectP e"
  by (rule ext) (simp add: thenP_def rejectP_def)

lemma thenP_unit [simp]: "thenP p (\<lambda>_. resolveP ()) = (p :: unit promise)"
  by (rule ext) (simp add: thenP_def resolveP_def split: option.splits prod.splits sum.splits)

lemma thenP_return [simp]: "thenP p (\<lambda>x. resolveP x) = p"
  by (rule ext) (simp add: thenP_def resolveP_def split: option.splits prod.splits sum.splits)

lemma thenP_assoc: "thenP (thenP p f) g = thenP p (\<lambda>x. thenP (f x) g)"
  by (rule ext) (simp add: thenP_def split: option.splits prod.splits sum.splits)

lemma catchP_rethrow [simp]: "catchP p (\<lambda>e. rejectP e) = p"
  by (rule ext) (simp add: catchP_def rejectP_def split: option.splits prod.splits sum.splits)

lemma withSpinner_id [simp]: "withSpinner p text' errorText = p"
  by (simp add: withSpinner_def)

lemma thenP_Some_Inr:
  "p w = Some (Inr x, w') \<Longrightarrow> thenP p f w = f x w'"
  by (simp add: thenP_def)

lemma thenP_Some_Inl:
  "p w = Some (Inl e, w') \<Longrightarrow> thenP p f w = Some (Inl e, w')"
  by (simp add: thenP_def)

lemma catchP_Some_Inr:
  "p w = Some (Inr x, w') \<Longrightarrow> catchP p h w = Some (Inr x, w')"
  by (simp add: catchP_def)

lemma catchP_Some_Inl:
  "p w = Some (Inl e, w') \<Longrightarrow> catchP p h w = h e w'"
  by (simp add: catchP_def)

lemma foldl_thenP:
  "foldl (\<lambda>p item. thenP p (\<lambda>_. handler item)) p items =
     thenP p (\<lambda>_. foldl (\<lambda>p item. thenP p (\<lambda>_. handler item)) (resolveP ()) items)"
proof (induction items arbitrary: p)
  case Nil
  then show ?case by simp
next
  case (Cons x xs)
  have "foldl (\<lambda>p item. thenP p (\<lambda>_. handler item)) p (x # xs) =
          foldl (\<lambda>p item. thenP p (\<lambda>_. handler item)) (thenP p (\<lambda>_. handler x)) xs"
    by simp
  also have "\<dots> = thenP (thenP p (\<lambda>_. handler x))
                      (\<lambda>_. foldl (\<lambda>p item. thenP p (\<lambda>_. handler item)) (resolveP ()) xs)"
    by (rule Cons.IH)
  also have "\<dots> = thenP p (\<lambda>_. thenP (handler x)
                      (\<lambda>_. foldl (\<lambda>p item. thenP p (\<lambda>_. handler item)) (resolveP ()) xs))"
    by (rule thenP_assoc)
  also have "thenP (handler x)
                      (\<lambda>_. foldl (\<lambda>p item. thenP p (\<lambda>_. handler item)) (resolveP ()) xs)
             = foldl (\<lambda>p item. thenP p (\<lambda>_. handler item)) (handler x) xs"
    by (rule Cons.IH [symmetric])
  finally show ?case by simp
qed

lemma sequentially_Nil [simp]: "sequentially [] handler = resolveP ()"
  by (simp add: sequentially_def)

lemma sequentially_Cons:
  "sequentially (x # xs) handler = thenP (handler x) (\<lambda>_. sequentially xs handler)"
proof -
  have "sequentially (x # xs) handler =
          foldl (\<lambda>p item. thenP p (\<lambda>_. handler item)) (handler x) xs"
    by (simp add: sequentially_def)
  also have "\<dots> = thenP (handler x) (\<lambda>_. sequentially xs handler)"
    unfolding sequentially_def by (rule foldl_thenP)
  finally show ?thesis .
qed

lemma sequentially_append:
  "sequentially (xs @ ys) handler = thenP (sequentially xs handler) (\<lambda>_. sequentially ys handler)"
  by (induction xs) (simp_all add: sequentially_Cons thenP_assoc)

lemma countCalls_append [simp]: "countCalls P (xs @ ys) = countCalls P xs + countCalls P ys"
  by (simp add: countCalls_def)

lemma countCalls_Nil [simp]: "countCalls P [] = 0"
  by (simp add: countCalls_def)

lemma countCalls_Cons [simp]: "countCalls P (c # cs) = (if P c then 1 else 0) + countCalls P cs"
  by (simp add: countCalls_def)

lemma countCalls_cherrypicks [simp]:
  "countCalls isPromptCall (map (\<lambda>c. Cherrypick owner repo (f c)) cs) = 0"
  "countCalls isIndexDirtyCall (map (\<lambda>c. Cherrypick owner repo (f c)) cs) = 0"
  "countCalls isPushCall (map (\<lambda>c. Cherrypick owner repo (f c)) cs) = 0"
  "countCalls isCreatePullRequestCall (map (\<lambda>c. Cherrypick owner repo (f c)) cs) = 0"
  "countCalls isAddLabelsCall (map (\<lambda>c. Cherrypick owner repo (f c)) cs) = 0"
  by (induction cs) simp_all

lemma conflictRounds_Suc:
  "conflictRounds (Suc n) owner repo =
     [ConfirmConflictResolved, IsIndexDirty owner repo] @ conflictRounds n owner repo"
  by (simp add: conflictRounds_def)

lemma countCalls_conflictRounds [simp]:
  "countCalls isPromptCall (conflictRounds n owner repo) = n"
  "countCalls isIndexDirtyCall (conflictRounds n owner repo) = n"
  "countCalls isPushCall (conflictRounds n owner repo) = 0"
  "countCalls isCreatePullRequestCall (conflictRounds n owner repo) = 0"
  "countCalls isAddLabelsCall (conflictRounds n owner repo) = 0"
  by (induction n) (simp_all add: conflictRounds_Suc, simp_all add: conflictRounds_def)

lemma cherrypick_ok:
  assumes "voidResult env w (Cherrypick owner repo s) = Inr ()"
  shows "cherrypickAndConfirm env owner repo s w = Some (Inr (), w @ [Cherrypick owner repo s])"
  using assms
  by (simp add: cherrypickAndConfirm_def catchP_def liftP_def cherrypick_def performA_def)

lemma cherrypick_conflict:
  assumes "voidResult env w (Cherrypick owner repo s) = Inl e"
      and "isCherrypickConflict e = Inr True"
  shows "cherrypickAndConfirm env owner repo s w =
           confirmResolvedRecursive env owner repo (w @ [Cherrypick owner repo s])"
  using assms
  by (simp add: cherrypickAndConfirm_def catchP_def liftP_def cherrypick_def performA_def)

lemma sequentially_cherrypicks_ok:
  assumes "\<forall>c \<in> set cs. \<forall>w. voidResult env w (Cherrypick owner repo (sha c)) = Inr ()"
  shows "sequentially cs (\<lambda>commit. cherrypickAndConfirm env owner repo (sha commit)) w =
           Some (Inr (), w @ map (\<lambda>c. Cherrypick owner repo (sha c)) cs)"
  using assms
proof (induction cs arbitrary: w)
  case Nil
  then show ?case by (simp add: resolveP_def)
next
  case (Cons c cs)
  have 1: "cherrypickAndConfirm env owner repo (sha c) w =
             Some (Inr (), w @ [Cherrypick owner repo (sha c)])"
    using Cons.prems by (simp add: cherrypick_ok)
  have 2: "sequentially cs (\<lambda>commit. cherrypickAndConfirm env owner repo (sha commit))
             (w @ [Cherrypick owner repo (sha c)]) =
           Some (Inr (), (w @ [Cherrypick owner repo (sha c)]) @ map (\<lambda>c. Cherrypick owner repo (sha c)) cs)"
    using Cons.prems by (intro Cons.IH) simp
  show ?case
    by (simp add: sequentially_Cons thenP_def 1 2)
qed

lemma confirm_loop_rounds:
  assumes prompt: "\<forall>w. \<exists>answer. boolResult env w ConfirmConflictResolved = Inr answer"
      and dirty: "\<forall>w. boolResult env w (IsIndexDirty owner repo) =
                      Inr (countCalls isIndexDirtyCall w < limit)"
  shows "confirmResolvedRecursive env owner repo w =
           Some (Inr (), w @ conflictRounds (Suc (limit - countCalls isIndexDirtyCall w)) owner repo)"
proof (induction "limit - countCalls isIndexDirtyCall w" arbitrary: w)
  case 0
  from prompt obtain answer where a: "boolResult env w ConfirmConflictResolved = Inr answer"
    by blast
  have d: "boolResult env (w @ [ConfirmConflictResolved]) (IsIndexDirty owner repo) = Inr False"
    using dirty 0 by simp
  show ?case
    using 0 a d
    by (subst confirmResolvedRecursive.simps)
       (simp add: confirmConflictResolved_def isIndexDirty_def performA_def conflictRounds_def)
next
  case (Suc n)
  from prompt obtain answer where a: "boolResult env w ConfirmConflictResolved = Inr answer"
    by blast
  have d: "boolResult env (w @ [ConfirmConflictResolved]) (IsIndexDirty owner repo) = Inr True"
    using dirty Suc.hyps(2) by simp
  let ?w2 = "w @ [ConfirmConflictResolved, IsIndexDirty owner repo]"
  have n: "n = limit - countCalls isIndexDirtyCall ?w2"
    using Suc.hyps(2) by simp
  have step: "confirmResolvedRecursive env owner repo w = confirmResolvedRecursive env owner repo ?w2"
    using a d
    by (subst confirmResolvedRecursive.simps)
       (simp add: confirmConflictResolved_def isIndexDirty_def performA_def)
  have "limit - countCalls isIndexDirtyCall w = Suc (limit - countCalls isIndexDirtyCall ?w2)"
    using Suc.hyps(2) by simp
  then have "conflictRounds (Suc (limit - countCalls isIndexDirtyCall w)) owner repo =
          [ConfirmConflictResolved, IsIndexDirty owner repo] @
          conflictRounds (Suc (limit - countCalls isIndexDirtyCall ?w2)) owner repo"
    by (simp only: conflictRounds_Suc)
  with Suc.hyps(1) [OF n] step show ?case by simp
qed


lemma sequentially_one_conflict:
  assumes others: "\<forall>c' \<in> set (before @ after). sha c' \<noteq> sha c"
      and void: "\<forall>w call. call \<noteq> Cherrypick owner repo (sha c) \<longrightarrow> voidResult env w call = Inr ()"
      and conflict: "\<forall>w. voidResult env w (Cherrypick owner repo (sha c)) = Inl e"
      and sig: "isCherrypickConflict e = Inr True"
      and prompt: "\<forall>w. \<exists>answer. boolResult env w ConfirmConflictResolved = Inr answer"
      and dirty: "\<forall>w. boolResult env w (IsIndexDirty owner repo) =
                      Inr (countCalls isIndexDirtyCall w < limit)"
  shows "sequentially (before @ [c] @ after)
           (\<lambda>commit. cherrypickAndConfirm env owner repo (sha commit)) w =
         Some (Inr (),
           w @ map (\<lambda>c. Cherrypick owner repo (sha c)) before @
               [Cherrypick owner repo (sha c)] @
               conflictRounds (Suc (limit - countCalls isIndexDirtyCall w)) owner repo @
               map (\<lambda>c. Cherrypick owner repo (sha c)) after)"
proof -
  let ?pick = "\<lambda>commit. cherrypickAndConfirm env owner repo (sha commit)"
  define w4 where "w4 = w @ map (\<lambda>c. Cherrypick owner repo (sha c)) before"
  define w5 where "w5 = w4 @ [Cherrypick owner repo (sha c)]"
  define w6 where "w6 = w5 @ conflictRounds (Suc (limit - countCalls isIndexDirtyCall w)) owner repo"
  have okBefore: "\<forall>c' \<in> set before. \<forall>w. voidResult env w (Cherrypick owner repo (sha c')) = Inr ()"
    using others void by simp
  have okAfter: "\<forall>c' \<in> set after. \<forall>w. voidResult env w (Cherrypick owner repo (sha c')) = Inr ()"
    using others void by simp
  have s1: "sequentially before ?pick w = Some (Inr (), w4)"
    unfolding w4_def using okBefore by (rule sequentially_cherrypicks_ok)
  have d5: "countCalls isIndexDirtyCall w5 = countCalls isIndexDirtyCall w"
    by (simp add: w5_def w4_def)
  have "confirmResolvedRecursive env owner repo w5 =
          Some (Inr (), w5 @ conflictRounds (Suc (limit - countCalls isIndexDirtyCall w5)) owner repo)"
    using prompt dirty by (rule confirm_loop_rounds)
  then have loop: "confirmResolvedRecursive env owner repo w5 = Some (Inr (), w6)"
    unfolding d5 w6_def .
  have "cherrypickAndConfirm env owner repo (sha c) w4 =
          confirmResolvedRecursive env owner repo (w4 @ [Cherrypick owner repo (sha c)])"
    using conflict sig by (simp add: cherrypick_conflict)
  with loop have s2: "?pick c w4 = Some (Inr (), w6)"
    by (simp add: w5_def)
  have s3: "sequentially after ?pick w6 =
              Some (Inr (), w6 @ map (\<lambda>c. Cherrypick owner repo (sha c)) after)"
    using okAfter by (rule sequentially_cherrypicks_ok)
  have "sequentially (before @ [c] @ after) ?pick w =
          Some (Inr (), w6 @ map (\<lambda>c. Cherrypick owner repo (sha c)) after)"
    by (simp add: sequentially_append thenP_def s1 sequentially_Cons s2 s3)
  then show ?thesis
    by (simp add: w6_def w5_def w4_def)
qed

lemma conflict_run_calls:
  assumes commits: "commits = before @ [c] @ after"
      and others: "\<forall>c' \<in> set (before @ after). sha c' \<noteq> sha c"
      and void: "\<forall>w call. call \<noteq> Cherrypick owner repo (sha c) \<longrightarrow> voidResult env w call = Inr ()"
      and conflict: "\<forall>w. voidResult env w (Cherrypick owner repo (sha c)) = Inl e"
      and sig: "isCherrypickConflict e = Inr True"
      and prompt: "\<forall>w. \<exists>answer. boolResult env w ConfirmConflictResolved = Inr answer"
      and dirty: "\<forall>w. boolResult env w (IsIndexDirty owner repo) =
                      Inr (countCalls isIndexDirtyCall w < countCalls isIndexDirtyCall w0 + N)"
      and created: "\<forall>w payload. createdResult env w (CreatePullRequest owner repo payload) = Inr res"
  shows "doBackportVersion env owner repo commits version user labels w0 =
           Some (Inr res,
             w0 @ [ConsoleLog (''Backporting '' @ join '', '' (map getReferenceLong commits) @
                               '' to '' @ version),
                   ResetAndPullMaster owner repo,
                   CreateAndCheckoutBranch owner repo version (getBackportBranchName version commits)] @
                  map (\<lambda>c. Cherrypick owner repo (sha c)) before @
                  [Cherrypick owner repo (sha c)] @
                  conflictRounds (Suc N) owner repo @
                  map (\<lambda>c. Cherrypick owner repo (sha c)) after @
                  [Push owner repo user (getBackportBranchName version commits),
                   CreatePullRequest owner repo (getPullRequestPayload version commits user)] @
                  (if labels = [] then [] else [AddLabels owner repo (data_number res) labels]))"
proof -
  let ?pick = "\<lambda>commit. cherrypickAndConfirm env owner repo (sha commit)"
  define branch where "branch = getBackportBranchName version commits"
  define payload where "payload = getPullRequestPayload version commits user"
  define line where "line = ''Backporting '' @ join '', '' (map getReferenceLong commits) @
                               '' to '' @ version"
  define w1 where "w1 = w0 @ [ConsoleLog line]"
  define w2 where "w2 = w1 @ [ResetAndPullMaster owner repo]"
  define w3 where "w3 = w2 @ [CreateAndCheckoutBranch owner repo version branch]"
  define w7 where "w7 = w3 @ map (\<lambda>c. Cherrypick owner repo (sha c)) before @
               [Cherrypick owner repo (sha c)] @ conflictRounds (Suc N) owner repo @
               map (\<lambda>c. Cherrypick owner repo (sha c)) after"
  define w8 where "w8 = w7 @ [Push owner repo user branch]"
  define w9 where "w9 = w8 @ [CreatePullRequest owner repo payload]"
  have d3: "countCalls isIndexDirtyCall w3 = countCalls isIndexDirtyCall w0"
    by (simp add: w3_def w2_def w1_def)
  have "sequentially (before @ [c] @ after) ?pick w3 =
         Some (Inr (),
           w3 @ map (\<lambda>c. Cherrypick owner repo (sha c)) before @
               [Cherrypick owner repo (sha c)] @
               conflictRounds (Suc (countCalls isIndexDirtyCall w0 + N - countCalls isIndexDirtyCall w3))
                 owner repo @
               map (\<lambda>c. Cherrypick owner repo (sha c)) after)"
    using others void conflict sig prompt dirty by (rule sequentially_one_conflict)
  then have seq: "sequentially commits ?pick w3 = Some (Inr (), w7)"
    unfolding d3 w7_def commits by simp
  have v1: "resetAndPullMaster env owner repo w1 = (Inr (), w2)"
    using void by (simp add: resetAndPullMaster_def performA_def w2_def)
  have v2: "createAndCheckoutBranch env owner repo version branch w2 = (Inr (), w3)"
    using void by (simp add: createAndCheckoutBranch_def performA_def w3_def)
  have v3: "push env owner repo user branch w7 = (Inr (), w8)"
    using void by (simp add: push_def performA_def w8_def)
  have c1: "createPullRequest env owner repo payload w8 = (Inr res, w9)"
    using created by (simp add: createPullRequest_def performA_def w9_def)
  have v4: "addLabels env owner repo (data_number res) labels w9 =
              (Inr (), w9 @ [AddLabels owner repo (data_number res) labels])"
    using void by (simp add: addLabels_def performA_def)
  have "doBackportVersion env owner repo commits version user labels w0 =
          Some (Inr res, w9 @ (if labels = [] then [] else [AddLabels owner repo (data_number res) labels]))"
    unfolding doBackportVersion_def Let_def withSpinner_id
      branch_def [symmetric] payload_def [symmetric] line_def [symmetric]
    by (simp add: thenP_def consoleLog_def liftP_def resolveP_def
          w1_def [symmetric] v1 v2 seq v3 c1 v4)
  then show ?thesis
    by (simp add: w9_def w8_def w7_def w3_def w2_def w1_def line_def branch_def payload_def)
qed

text \<open>
  Claim C5. One commit of the task stops on a conflict (its error carries the
  \<^verbatim>\<open>git cherry-pick\<close> command), every other call succeeds, the prompt always resolves, and
  the index is reported dirty at the first \<open>N\<close> checks and clean at the next. Then the
  task settles with the created pull request; among the calls it made are exactly
  \<open>N + 1\<close> prompts and \<open>N + 1\<close> index checks, exactly one push, exactly one
  pull-request creation, and exactly one label call when labels are configured (none
  otherwise).
\<close>

theorem conflict_then_resolved:
  assumes commits: "commits = before @ [c] @ after"
      and others: "\<forall>c' \<in> set (before @ after). sha c' \<noteq> sha c"
      and void: "\<forall>w call. call \<noteq> Cherrypick owner repo (sha c) \<longrightarrow> voidResult env w call = Inr ()"
      and conflict: "\<forall>w. voidResult env w (Cherrypick owner repo (sha c)) = Inl e"
      and sig: "isCherrypickConflict e = Inr True"
      and prompt: "\<forall>w. \<exists>answer. boolResult env w ConfirmConflictResolved = Inr answer"
      and dirty: "\<forall>w. boolResult env w (IsIndexDirty owner repo) =
                      Inr (countCalls isIndexDirtyCall w < countCalls isIndexDirtyCall w0 + N)"
      and created: "\<forall>w payload. createdResult env w (CreatePullRequest owner repo payload) = Inr res"
  shows "\<exists>calls. doBackportVersion env owner repo commits version user labels w0 =
                    Some (Inr res, w0 @ calls)
           \<and> countCalls isPromptCall calls = N + 1
           \<and> countCalls isIndexDirtyCall calls = N + 1
           \<and> countCalls isPushCall calls = 1
           \<and> countCalls isCreatePullRequestCall calls = 1
           \<and> countCalls isAddLabelsCall calls = (if labels = [] then 0 else 1)"
proof -
  let ?calls = "[ConsoleLog (''Backporting '' @ join '', '' (map getReferenceLong commits) @
                               '' to '' @ version),
                   ResetAndPullMaster owner repo,
                   CreateAndCheckoutBranch owner repo version (getBackportBranchName version commits)] @
                  map (\<lambda>c. Cherrypick owner repo (sha c)) before @
                  [Cherrypick owner repo (sha c)] @
                  conflictRounds (Suc N) owner repo @
                  map (\<lambda>c. Cherrypick owner repo (sha c)) after @
                  [Push owner repo user (getBackportBranchName version commits),
                   CreatePullRequest owner repo (getPullRequestPayload version commits user)] @
                  (if labels = [] then [] else [AddLabels owner repo (data_number res) labels])"
  have run: "doBackportVersion env owner repo commits version user labels w0 =
               Some (Inr res, w0 @ ?calls)"
    using assms by (rule conflict_run_calls)
  have 1: "countCalls isPromptCall ?calls = N + 1" by simp
  have 2: "countCalls isIndexDirtyCall ?calls = N + 1" by simp
  have 3: "countCalls isPushCall ?calls = 1" by simp
  have 4: "countCalls isCreatePullRequestCall ?calls = 1" by simp
  have 5: "countCalls isAddLabelsCall ?calls = (if labels = [] then 0 else 1)" by simp
  from run 1 2 3 4 5 show ?thesis by blast
qed

theorem conflict_then_resolved_witness:
  "\<exists>calls. doBackportVersion retryEnv ''elastic'' ''kibana'' [directCommit, plainCommit, directCommit]
              ''6.x'' ''sqren'' [''backport''] [] = Some (Inr createdData, calls)
     \<and> countCalls isPromptCall calls = 3
     \<and> countCalls isCreatePullRequestCall calls = 1
     \<and> countCalls isAddLabelsCall calls = 1"
proof -
  have commits: "[directCommit, plainCommit, directCommit] = [directCommit] @ [plainCommit] @ [directCommit]"
    by simp
  have others: "\<forall>c' \<in> set ([directCommit] @ [directCommit]). sha c' \<noteq> sha plainCommit"
    by (simp add: directCommit_def plainCommit_def)
  have void: "\<forall>w call. call \<noteq> Cherrypick ''elastic'' ''kibana'' (sha plainCommit) \<longrightarrow>
                voidResult retryEnv w call = Inr ()"
    by (simp add: retryEnv_def plainCommit_def)
  have conflict: "\<forall>w. voidResult retryEnv w (Cherrypick ''elastic'' ''kibana'' (sha plainCommit)) = Inl conflictError"
    by (simp add: retryEnv_def plainCommit_def)
  have sig: "isCherrypickConflict conflictError = Inr True"
    by code_simp
  have prompt: "\<forall>w. \<exists>answer. boolResult retryEnv w ConfirmConflictResolved = Inr answer"
    by (auto simp: retryEnv_def)
  have dirty: "\<forall>w. boolResult retryEnv w (IsIndexDirty ''elastic'' ''kibana'') =
                      Inr (countCalls isIndexDirtyCall w < countCalls isIndexDirtyCall [] + 2)"
    by (simp add: retryEnv_def numeral_2_eq_2)
  have created: "\<forall>w payload. createdResult retryEnv w (CreatePullRequest ''elastic'' ''kibana'' payload) = Inr createdData"
    by (simp add: retryEnv_def)
  from conflict_then_resolved [OF commits others void conflict sig prompt dirty created,
         of "''6.x''" "''sqren''" "[''backport'']"]
  show ?thesis by auto
qed

lemma growsD: "grows p \<Longrightarrow> p w = Some (r, w') \<Longrightarrow> prefix w w'"
  by (auto simp: grows_def)

lemma grows_resolveP [simp]: "grows (resolveP x)"
  by (simp add: grows_def resolveP_def)

lemma grows_rejectP [simp]: "grows (rejectP e)"
  by (simp add: grows_def rejectP_def)

lemma grows_consoleLog [simp]: "grows (consoleLog s)"
  by (auto simp: grows_def consoleLog_def)

lemma grows_consoleError [simp]: "grows (consoleError e)"
  by (auto simp: grows_def consoleError_def)

lemma grows_perform [simp]: "grows (liftP (performA oracle c))"
  by (auto simp: grows_def liftP_def performA_def)

lemma grows_thenP:
  assumes "grows p" and "\<And>x. grows (f x)"
  shows "grows (thenP p f)"
  unfolding grows_def
proof (intro allI impI)
  fix w r w' assume t: "thenP p f w = Some (r, w')"
  show "prefix w w'"
  proof (cases "p w")
    case None
    with t show ?thesis by (simp add: thenP_def)
  next
    case (Some a)
    obtain r1 w1 where a: "a = (r1, w1)" by (cases a)
    from Some a assms(1) have p1: "prefix w w1" by (auto dest: growsD)
    show ?thesis
    proof (cases r1)
      case (Inl e)
      with t Some a p1 show ?thesis by (simp add: thenP_def)
    next
      case (Inr x)
      with t Some a have "f x w1 = Some (r, w')" by (simp add: thenP_def)
      with assms(2) have "prefix w1 w'" by (auto dest: growsD)
      with p1 show ?thesis by (rule prefix_order.trans)
    qed
  qed
qed

lemma grows_catchP:
  assumes "grows p" and "\<And>e. grows (h e)"
  shows "grows (catchP p h)"
  unfolding grows_def
proof (intro allI impI)
  fix w r w' assume t: "catchP p h w = Some (r, w')"
  show "prefix w w'"
  proof (cases "p w")
    case None
    with t show ?thesis by (simp add: catchP_def)
  next
    case (Some a)
    obtain r1 w1 where a: "a = (r1, w1)" by (cases a)
    from Some a assms(1) have p1: "prefix w w1" by (auto dest: growsD)
    show ?thesis
    proof (cases r1)
      case (Inr x)
      with t Some a p1 show ?thesis by (simp add: catchP_def)
    next
      case (Inl e)
      with t Some a have "h e w1 = Some (r, w')" by (simp add: catchP_def)
      with assms(2) have "prefix w1 w'" by (auto dest: growsD)
      with p1 show ?thesis by (rule prefix_order.trans)
    qed
  qed
qed

lemma confirm_loop_prefix:
  assumes "confirmResolvedRecursive env owner repo w = Some y"
  shows "prefix w (snd y)"
proof (rule confirmResolvedRecursive.raw_induct
         [where P = "\<lambda>env owner repo w y. prefix w (snd y)", OF _ assms])
  fix loop :: "js_env \<Rightarrow> string \<Rightarrow> string \<Rightarrow> world \<Rightarrow> ((error + unit) \<times> world) option"
  fix env owner repo w y
  assume IH: "\<And>env owner repo w y. loop env owner repo w = Some y \<Longrightarrow> prefix w (snd y)"
  assume body: "(case confirmConflictResolved env w of
        (Inl e, w1) \<Rightarrow> Some (Inl e, w1)
      | (Inr _, w1) \<Rightarrow>
          (case isIndexDirty env owner repo w1 of
             (Inl e, w2) \<Rightarrow> Some (Inl e, w2)
           | (Inr isDirty, w2) \<Rightarrow>
               if isDirty then loop env owner repo w2
               else Some (Inr (), w2))) = Some y"
  show "prefix w (snd y)"
  proof (cases "boolResult env w ConfirmConflictResolved")
    case (Inl e)
    with body show ?thesis
      by (auto simp: confirmConflictResolved_def performA_def)
  next
    case a: (Inr answer)
    show ?thesis
    proof (cases "boolResult env (w @ [ConfirmConflictResolved]) (IsIndexDirty owner repo)")
      case (Inl e)
      with a body show ?thesis
        by (auto simp: confirmConflictResolved_def isIndexDirty_def performA_def)
    next
      case (Inr isDirty)
      show ?thesis
      proof (cases isDirty)
        case False
        with a Inr body show ?thesis
          by (auto simp: confirmConflictResolved_def isIndexDirty_def performA_def)
      next
        case True
        with a Inr body
        have "loop env owner repo (w @ [ConfirmConflictResolved] @ [IsIndexDirty owner repo]) = Some y"
          by (simp add: confirmConflictResolved_def isIndexDirty_def performA_def)
        then have "prefix (w @ [ConfirmConflictResolved] @ [IsIndexDirty owner repo]) (snd y)"
          by (rule IH)
        then show ?thesis by (auto simp: prefix_def)
      qed
    qed
  qed
qed

lemma grows_confirm [simp]: "grows (confirmResolvedRecursive env owner repo)"
  by (auto simp: grows_def dest: confirm_loop_prefix)

lemma grows_cherrypickAndConfirm [simp]: "grows (cherrypickAndConfirm env owner repo s)"
  unfolding cherrypickAndConfirm_def withSpinner_id cherrypick_def
  by (rule grows_catchP) (auto split: sum.splits)

lemma grows_sequentially:
  assumes "\<And>x. grows (handler x)"
  shows "grows (sequentially items handler)"
  by (induction items) (auto simp: sequentially_Cons assms intro: grows_thenP)

lemma withPullRequest_prefix:
  "prefix w (snd (withPullRequest env owner repo commits w))"
proof (induction commits arbitrary: w)
  case Nil
  then show ?case by (simp add: returnA_def)
next
  case (Cons c cs)
  let ?w1 = "w @ [GetPullRequestByCommit owner repo (sha c)]"
  obtain rs w2 where rest: "withPullRequest env owner repo cs ?w1 = (rs, w2)"
    by (cases "withPullRequest env owner repo cs ?w1")
  have "prefix ?w1 (snd (withPullRequest env owner repo cs ?w1))"
    by (rule Cons.IH)
  with rest have "prefix w w2"
    by (auto simp: prefix_def)
  with rest show ?case
    by (simp add: getPullRequestByCommit_def performA_def)
qed

lemma grows_withPullRequest [simp]: "grows (liftP (withPullRequest env owner repo commits))"
  unfolding grows_def
proof (intro allI impI)
  fix w r w'
  assume "liftP (withPullRequest env owner repo commits) w = Some (r, w')"
  then have "snd (withPullRequest env owner repo commits w) = w'"
    by (simp add: liftP_def)
  with withPullRequest_prefix [of w env owner repo commits] show "prefix w w'"
    by simp
qed

lemma thenP_InrE:
  assumes "thenP p f w = Some (Inr y, w')"
  obtains x w1 where "p w = Some (Inr x, w1)" and "f x w1 = Some (Inr y, w')"
  using assms by (auto simp: thenP_def split: option.splits sum.splits)

lemma grows_if: "grows p \<Longrightarrow> grows q \<Longrightarrow> grows (if b then p else q)"
  by simp

lemma grows_calls [simp]:
  "grows (liftP (resetAndPullMaster env owner repo))"
  "grows (liftP (createAndCheckoutBranch env owner repo version branch))"
  "grows (liftP (push env owner repo user branch))"
  "grows (liftP (createPullRequest env owner repo payload))"
  "grows (liftP (addLabels env owner repo n labels))"
  by (simp_all add: resetAndPullMaster_def createAndCheckoutBranch_def push_def
        createPullRequest_def addLabels_def)

lemma grows_doBackportVersion [simp]:
  "grows (doBackportVersion env owner repo commits version user labels)"
  unfolding doBackportVersion_def Let_def withSpinner_id
  by (intro grows_thenP grows_sequentially grows_if) simp_all

lemma backport_creates_pull_request:
  assumes "doBackportVersion env owner repo commits version user labels w = Some (Inr res, w')"
  shows "\<exists>mid rest. w' = w @ mid @
           CreatePullRequest owner repo (getPullRequestPayload version commits user) # rest"
proof -
  let ?payload = "getPullRequestPayload version commits user"
  let ?final = "thenP (liftP (createPullRequest env owner repo ?payload)) (\<lambda>res.
            if length labels > 0
            then thenP (liftP (addLabels env owner repo (data_number res) labels)) (\<lambda>_. resolveP res)
            else resolveP res)"
  let ?prelude = "thenP (consoleLog (''Backporting '' @ join '', '' (map getReferenceLong commits) @
                           '' to '' @ version)) (\<lambda>_.
         thenP (thenP (liftP (resetAndPullMaster env owner repo)) (\<lambda>_.
                     liftP (createAndCheckoutBranch env owner repo version
                              (getBackportBranchName version commits)))) (\<lambda>_.
         thenP (sequentially commits (\<lambda>commit.
                  cherrypickAndConfirm env owner repo (sha commit))) (\<lambda>_.
         liftP (push env owner repo user (getBackportBranchName version commits)))))"
  have split: "doBackportVersion env owner repo commits version user labels =
                 thenP ?prelude (\<lambda>_. ?final)"
    unfolding doBackportVersion_def Let_def withSpinner_id by (simp add: thenP_assoc)
  have gp: "grows ?prelude"
    by (intro grows_thenP grows_sequentially) simp_all
  from assms split obtain u w4 where p: "?prelude w = Some (Inr u, w4)"
    and f: "?final w4 = Some (Inr res, w')"
    by (auto elim: thenP_InrE)
  from gp p have "prefix w w4" by (rule growsD)
  then obtain mid where w4: "w4 = w @ mid" by (auto simp: prefix_def)
  from f obtain x w5 where c: "liftP (createPullRequest env owner repo ?payload) w4 = Some (Inr x, w5)"
    and l: "(if length labels > 0
            then thenP (liftP (addLabels env owner repo (data_number x) labels)) (\<lambda>_. resolveP x)
            else resolveP x) w5 = Some (Inr res, w')"
    by (auto elim: thenP_InrE)
  from c have w5: "w5 = w4 @ [CreatePullRequest owner repo ?payload]"
    by (auto simp: liftP_def createPullRequest_def performA_def)
  have "grows (if length labels > 0
            then thenP (liftP (addLabels env owner repo (data_number x) labels)) (\<lambda>_. resolveP x)
            else resolveP x)"
    by (intro grows_thenP grows_if) simp_all
  from this l have "prefix w5 w'" by (rule growsD)
  then obtain rest where "w' = w5 @ rest" by (auto simp: prefix_def)
  with w5 w4 have "w' = w @ mid @ CreatePullRequest owner repo ?payload # rest" by simp
  then show ?thesis by blast
qed

lemma handleErrors_run: "handleErrors env e w = Some (Inr (), w @ errorReport env e)"
  by (simp add: handleErrors_def errorReport_def resolveP_def consoleError_def)

text \<open>
  Claim C3. A run over two target branches, where the task of the first branch is rejected
  with an error \<open>e\<close> and the task of the second, started from the calls the first one left
  (and the report of \<open>e\<close>), settles with a pull request. Then the run settles without a
  rejection; the calls of the first task all come before those of the second; and the
  second task creates a pull request whose base is the second branch.
\<close>

theorem failed_branch_does_not_stop_run:
  assumes first:
    "thenP (liftP (withPullRequest env owner repo commits))
       (\<lambda>cs. doBackportVersion env owner repo cs v1 user labels) w = Some (Inl e, w1)"
      and second:
    "thenP (liftP (withPullRequest env owner repo commits))
       (\<lambda>cs. doBackportVersion env owner repo cs v2 user labels) (w1 @ errorReport env e)
         = Some (Inr res, w2)"
  shows "doBackportVersions env owner repo commits [v1, v2] user labels w =
           Some (Inr (), w2 @ [ConsoleLog (''View pull request: '' @ html_url res @ newline)])
         \<and> prefix w w1 \<and> prefix (w1 @ errorReport env e) w2
         \<and> (\<exists>payload. CreatePullRequest owner repo payload
                          \<in> set (drop (length (w1 @ errorReport env e)) w2)
                        \<and> base payload = v2)"
proof -
  let ?T = "\<lambda>v. thenP (liftP (withPullRequest env owner repo commits))
       (\<lambda>cs. doBackportVersion env owner repo cs v user labels)"
  let ?H = "\<lambda>v. catchP (thenP (?T v)
                   (\<lambda>res. consoleLog (''View pull request: '' @ html_url res @ newline)))
                 (handleErrors env)"
  define ws where "ws = w1 @ errorReport env e"
  have gT: "\<And>v. grows (?T v)"
    by (intro grows_thenP) simp_all
  have h1: "?H v1 w = Some (Inr (), ws)"
    using first by (simp add: catchP_def thenP_def handleErrors_run ws_def)
  have h2: "?H v2 ws = Some (Inr (), w2 @ [ConsoleLog (''View pull request: '' @ html_url res @ newline)])"
    using second by (simp add: catchP_def thenP_def consoleLog_def ws_def)
  have run: "doBackportVersions env owner repo commits [v1, v2] user labels w =
           Some (Inr (), w2 @ [ConsoleLog (''View pull request: '' @ html_url res @ newline)])"
    unfolding doBackportVersions_def sequentially_Cons sequentially_Nil thenP_unit
    using h1 h2 by (simp add: thenP_def)
  have p1: "prefix w w1"
    using gT first by (rule growsD)
  have p2: "prefix ws w2"
    using gT second unfolding ws_def by (rule growsD)
  from second obtain cs wa where
      a: "liftP (withPullRequest env owner repo commits) ws = Some (Inr cs, wa)"
    and b: "doBackportVersion env owner repo cs v2 user labels wa = Some (Inr res, w2)"
    unfolding ws_def by (auto elim: thenP_InrE)
  have "prefix ws wa"
    using grows_withPullRequest a by (rule growsD)
  then obtain pre where wa: "wa = ws @ pre" by (auto simp: prefix_def)
  from backport_creates_pull_request [OF b] obtain mid rest where
    "w2 = wa @ mid @ CreatePullRequest owner repo (getPullRequestPayload v2 cs user) # rest"
    by blast
  with wa have "drop (length ws) w2 =
      pre @ mid @ CreatePullRequest owner repo (getPullRequestPayload v2 cs user) # rest"
    by simp
  then have "CreatePullRequest owner repo (getPullRequestPayload v2 cs user)
               \<in> set (drop (length ws) w2)"
    by simp
  moreover have "base (getPullRequestPayload v2 cs user) = v2"
    by (simp add: getPullRequestPayload_def Let_def)
  ultimately have ex: "\<exists>payload. CreatePullRequest owner repo payload \<in> set (drop (length ws) w2)
                        \<and> base payload = v2"
    by blast
  from run p1 p2 ex show ?thesis unfolding ws_def by blast
qed

theorem failed_branch_does_not_stop_run_witness:
  "doBackportVersions invalidBranchEnv ''elastic'' ''kibana'' [plainCommit] [''5.x'', ''6.x'']
     ''sqren'' [''backport''] [] =
   Some (Inr (),
     [GetPullRequestByCommit ''elastic'' ''kibana'' ''mySha'',
      ConsoleLog ''Backporting mySha to 5.x'',
      ResetAndPullMaster ''elastic'' ''kibana'',
      CreateAndCheckoutBranch ''elastic'' ''kibana'' ''5.x'' ''backport/5.x/commit-mySha'',
      ConsoleError branchError,
      GetPullRequestByCommit ''elastic'' ''kibana'' ''mySha'',
      ConsoleLog ''Backporting mySha to 6.x'',
      ResetAndPullMaster ''elastic'' ''kibana'',
      CreateAndCheckoutBranch ''elastic'' ''kibana'' ''6.x'' ''backport/6.x/commit-mySha'',
      Cherrypick ''elastic'' ''kibana'' ''mySha'',
      Push ''elastic'' ''kibana'' ''sqren'' ''backport/6.x/commit-mySha'',
      CreatePullRequest ''elastic'' ''kibana'' (getPullRequestPayload ''6.x'' [plainCommit] ''sqren''),
      AddLabels ''elastic'' ''kibana'' 1337 [''backport''],
      ConsoleLog (''View pull request: myHtmlUrl'' @ newline)])"
proof -
  let ?w1 = "[GetPullRequestByCommit ''elastic'' ''kibana'' ''mySha'',
      ConsoleLog ''Backporting mySha to 5.x'',
      ResetAndPullMaster ''elastic'' ''kibana'',
      CreateAndCheckoutBranch ''elastic'' ''kibana'' ''5.x'' ''backport/5.x/commit-mySha'']"
  let ?w2 = "?w1 @ [ConsoleError branchError,
      GetPullRequestByCommit ''elastic'' ''kibana'' ''mySha'',
      ConsoleLog ''Backporting mySha to 6.x'',
      ResetAndPullMaster ''elastic'' ''kibana'',
      CreateAndCheckoutBranch ''elastic'' ''kibana'' ''6.x'' ''backport/6.x/commit-mySha'',
      Cherrypick ''elastic'' ''kibana'' ''mySha'',
      Push ''elastic'' ''kibana'' ''sqren'' ''backport/6.x/commit-mySha'',
      CreatePullRequest ''elastic'' ''kibana'' (getPullRequestPayload ''6.x'' [plainCommit] ''sqren''),
      AddLabels ''elastic'' ''kibana'' 1337 [''backport'']]"
  have r: "errorReport invalidBranchEnv branchError = [ConsoleError branchError]"
    by code_simp
  have first: "thenP (liftP (withPullRequest invalidBranchEnv ''elastic'' ''kibana'' [plainCommit]))
       (\<lambda>cs. doBackportVersion invalidBranchEnv ''elastic'' ''kibana'' cs ''5.x'' ''sqren'' [''backport''])
       [] = Some (Inl branchError, ?w1)"
    by code_simp
  have "thenP (liftP (withPullRequest invalidBranchEnv ''elastic'' ''kibana'' [plainCommit]))
       (\<lambda>cs. doBackportVersion invalidBranchEnv ''elastic'' ''kibana'' cs ''6.x'' ''sqren'' [''backport''])
       (?w1 @ [ConsoleError branchError]) = Some (Inr createdData, ?w2)"
    by code_simp
  then have second: "thenP (liftP (withPullRequest invalidBranchEnv ''elastic'' ''kibana'' [plainCommit]))
       (\<lambda>cs. doBackportVersion invalidBranchEnv ''elastic'' ''kibana'' cs ''6.x'' ''sqren'' [''backport''])
       (?w1 @ errorReport invalidBranchEnv branchError) = Some (Inr createdData, ?w2)"
    unfolding r .
  have u: "html_url createdData = ''myHtmlUrl''" by (simp add: createdData_def)
  from failed_branch_does_not_stop_run [OF first second]
  show ?thesis unfolding u by simp
qed

text \<open>
  Claim C4. A cherry-pick stops on a conflict and the user answers the prompt with
  \<^verbatim>\<open>false\<close>. The task should fail with the error \<^verbatim>\<open>Aborted\<close> and push nothing. The
  loop drops the answer of the prompt, so with a clean index the task goes on: it pushes,
  creates the pull request and adds the labels.
\<close>

theorem decline_is_ignored:
  "isCherrypickConflict conflictError = Inr True
   \<and> boolResult declineEnv
        [ConsoleLog ''Backporting mySha to 6.x'', ResetAndPullMaster ''elastic'' ''kibana'',
         CreateAndCheckoutBranch ''elastic'' ''kibana'' ''6.x'' ''backport/6.x/commit-mySha'',
         Cherrypick ''elastic'' ''kibana'' ''mySha'']
        ConfirmConflictResolved = Inr False
   \<and> doBackportVersion declineEnv ''elastic'' ''kibana'' [plainCommit] ''6.x'' ''sqren'' [''backport''] [] =
     Some (Inr createdData,
       [ConsoleLog ''Backporting mySha to 6.x'',
        ResetAndPullMaster ''elastic'' ''kibana'',
        CreateAndCheckoutBranch ''elastic'' ''kibana'' ''6.x'' ''backport/6.x/commit-mySha'',
        Cherrypick ''elastic'' ''kibana'' ''mySha'',
        ConfirmConflictResolved,
        IsIndexDirty ''elastic'' ''kibana'',
        Push ''elastic'' ''kibana'' ''sqren'' ''backport/6.x/commit-mySha'',
        CreatePullRequest ''elastic'' ''kibana'' (getPullRequestPayload ''6.x'' [plainCommit] ''sqren''),
        AddLabels ''elastic'' ''kibana'' 1337 [''backport'']])"
  by code_simp

end
